theory Spec2Isabelle
  imports Main
begin

section \<open>Errors, log and test state\<close>

text \<open>
  The Go code reports failure through \<open>error\<close> values. The errors that can arise in the
  scenario are the poll session's deadline error, the errors of the API client, of
  \<open>json.Unmarshal\<close> and of the \<open>unstructured\<close> accessors, and the rejection of a
  non-positive interval or deadline.
\<close>

datatype error =
    DeadlineExceeded
  | InvalidInput
  | ApiError string
  | UnmarshalError
  | AccessorError

text \<open>
  \<open>require.NoError(t, err, msg)\<close> marks the test failed with \<open>msg\<close> and stops the test
  body; the framework's \<open>Must...\<close> helpers do the same with a message of their own.
\<close>

datatype test_failure =
    FrameworkSetup error
  | NoErrorFailed string error

text \<open>
  The state of \<open>testing.TB\<close> that the scenario changes: the lines written with
  \<open>t.Log\<close>/\<open>t.Logf\<close> (recorded by their constant text, in order; interpolated values
  are not rendered) and the failure, if any.
\<close>

record test_state =
  logs :: "string list"
  failure :: "test_failure option"

definition tlog :: "string \<Rightarrow> test_state \<Rightarrow> test_state" where
  "tlog msg s = s\<lparr>logs := logs s @ [msg]\<rparr>"

section \<open>Resources of the cluster API\<close>

record ClusterOperatorStatusCondition =
  Type :: string
  Status :: string
  Reason :: string

definition OperatorAvailable :: string where "OperatorAvailable = ''Available''"
definition OperatorProgressing :: string where "OperatorProgressing = ''Progressing''"
definition OperatorDegraded :: string where "OperatorDegraded = ''Degraded''"
definition ConditionTrue :: string where "ConditionTrue = ''True''"
definition ConditionFalse :: string where "ConditionFalse = ''False''"

record ClusterOperator =
  Conditions :: "ClusterOperatorStatusCondition list"

record TLSProfileSpec =
  Ciphers :: "string list"
  MinTLSVersion :: string

record TLSSecurityProfile =
  profileType :: string
  Modern :: "unit option"
  Custom :: "TLSProfileSpec option"

definition TLSProfileModernType :: string where "TLSProfileModernType = ''Modern''"
definition TLSProfileCustomType :: string where "TLSProfileCustomType = ''Custom''"

record APIServer =
  specTLSSecurityProfile :: "TLSSecurityProfile option"

record OpenShiftControllerManager =
  ObservedConfigRaw :: string

section \<open>Decoded JSON and the unstructured accessors\<close>

text \<open>
  \<open>json.Unmarshal\<close> into a \<open>map[string]interface{}\<close> yields nested maps, slices and
  scalars. A decoded object is an association list read with \<open>map_of\<close>.
\<close>

datatype json =
    JNull
  | JBool bool
  | JNumber int
  | JString string
  | JArray "json list"
  | JObject "(string \<times> json) list"

type_synonym object = "(string \<times> json) list"

text \<open>
  The accessors of \<open>k8s.io/apimachinery/.../unstructured\<close> return a value, a
  \<open>found\<close> flag and an error: a missing key (or a null on the way) is
  \<open>found = false\<close> without error, a value of the wrong type on the way or at the end is
  \<open>found = false\<close> with an error.
\<close>

fun NestedFieldNoCopy :: "json \<Rightarrow> string list \<Rightarrow> json \<times> bool \<times> error option" where
  "NestedFieldNoCopy val [] = (val, True, None)"
| "NestedFieldNoCopy JNull (field # rest) = (JNull, False, None)"
| "NestedFieldNoCopy (JObject m) (field # rest) =
     (case map_of m field of
        None \<Rightarrow> (JNull, False, None)
      | Some v \<Rightarrow> NestedFieldNoCopy v rest)"
| "NestedFieldNoCopy val (field # rest) = (JNull, False, Some AccessorError)"

definition NestedString :: "object \<Rightarrow> string list \<Rightarrow> string \<times> bool \<times> error option" where
  "NestedString obj path =
     (let (val, found, err) = NestedFieldNoCopy (JObject obj) path in
      if \<not> found \<or> err \<noteq> None then ([], found, err)
      else case val of
             JString s \<Rightarrow> (s, True, None)
           | _ \<Rightarrow> ([], False, Some AccessorError))"

definition NestedMap :: "object \<Rightarrow> string list \<Rightarrow> object \<times> bool \<times> error option" where
  "NestedMap obj path =
     (let (val, found, err) = NestedFieldNoCopy (JObject obj) path in
      if \<not> found \<or> err \<noteq> None then ([], found, err)
      else case val of
             JObject m \<Rightarrow> (m, True, None)
           | _ \<Rightarrow> ([], False, Some AccessorError))"

fun stringElements :: "json list \<Rightarrow> string list option" where
  "stringElements [] = Some []"
| "stringElements (JString s # vs) =
     (case stringElements vs of None \<Rightarrow> None | Some ss \<Rightarrow> Some (s # ss))"
| "stringElements (v # vs) = None"

definition NestedStringSlice :: "object \<Rightarrow> string list \<Rightarrow> string list \<times> bool \<times> error option" where
  "NestedStringSlice obj path =
     (let (val, found, err) = NestedFieldNoCopy (JObject obj) path in
      if \<not> found \<or> err \<noteq> None then ([], found, err)
      else case val of
             JArray vs \<Rightarrow>
               (case stringElements vs of
                  None \<Rightarrow> ([], False, Some AccessorError)
                | Some ss \<Rightarrow> (ss, True, None))
           | _ \<Rightarrow> ([], False, Some AccessorError))"

text \<open>\<open>strings.Contains(s, substr)\<close>: \<open>substr\<close> occurs in \<open>s\<close> as a contiguous run.\<close>

fun hasPrefix :: "string \<Rightarrow> string \<Rightarrow> bool" where
  "hasPrefix s [] = True"
| "hasPrefix [] (c # p) = False"
| "hasPrefix (x # s) (c # p) = (x = c \<and> hasPrefix s p)"

fun Contains :: "string \<Rightarrow> string \<Rightarrow> bool" where
  "Contains [] substr = (substr = [])"
| "Contains (x # s) substr = (hasPrefix (x # s) substr \<or> Contains s substr)"

section \<open>The cluster as seen by the test\<close>

text \<open>
  The cluster and the libraries the test calls are external collaborators. Their answers
  are taken as given: each read of the API is a function of the time (in seconds since
  the start of the test body) at which it is made, an update answers with an error or
  none, and \<open>json.Unmarshal\<close> is a function of the raw text. API calls and predicate
  evaluations take no time; time passes only while a poll session waits.

  Modelled from the spec: \<open>framework.MustNewClientset\<close> and
  \<open>framework.MustEnsureClusterOperatorStatusIsSet\<close>, whose code is not among the sources:
  a setup error "cannot obtain client" is fatal to the test case, the scenario aborts.
\<close>

record cluster =
  mustNewClientset :: "error option"
  mustEnsureClusterOperatorStatusIsSet :: "error option"
  getAPIServer :: "nat \<Rightarrow> error + APIServer"
  updateAPIServer :: "nat \<Rightarrow> APIServer \<Rightarrow> error option"
  getClusterOperator :: "nat \<Rightarrow> error + ClusterOperator"
  getOpenShiftControllerManager :: "nat \<Rightarrow> error + OpenShiftControllerManager"
  unmarshal :: "string \<Rightarrow> error + object"

type_synonym condition = "nat \<Rightarrow> test_state \<Rightarrow> (bool \<times> error option) \<times> test_state"

section \<open>The predicates of the scenario\<close>

text \<open>
  Each predicate is the function literal passed to \<open>wait.PollUntilContextTimeout\<close> at
  one call site of \<open>testTLSSecurityProfilePropagation\<close>. It reads the cluster at the
  time of the check and returns the pair \<open>(bool, error)\<close> of the Go code, with the
  test state extended by the lines it logs.
\<close>

subsection \<open>Cleanup: reconciliation after the restoration (lines 85 to 110)\<close>

fun scanAvailableProgressing ::
  "ClusterOperatorStatusCondition list \<Rightarrow> bool \<times> bool \<Rightarrow> bool \<times> bool" where
  "scanAvailableProgressing [] (isAvailable, isProgressing) = (isAvailable, isProgressing)"
| "scanAvailableProgressing (c # cs) (isAvailable, isProgressing) =
     scanAvailableProgressing cs
       (if Type c = OperatorAvailable \<and> Status c = ConditionTrue then True else isAvailable,
        if Type c = OperatorProgressing \<and> Status c = ConditionFalse then False
        else isProgressing)"

definition cleanupReconciled :: "cluster \<Rightarrow> condition" where
  "cleanupReconciled client t s =
     (case getClusterOperator client t of
        Inl e \<Rightarrow> ((False, None), tlog ''error getting clusteroperator during cleanup'' s)
      | Inr co \<Rightarrow>
          (let (isAvailable, isProgressing) =
                 scanAvailableProgressing (Conditions co) (False, True)
           in if isAvailable \<and> \<not> isProgressing
              then ((True, None),
                    tlog ''Operator reconciliation after restoration complete'' s)
              else ((False, None), s)))"

subsection \<open>Cleanup: verification of the restoration (lines 118 to 161)\<close>

definition restoreVerified :: "cluster \<Rightarrow> TLSSecurityProfile option \<Rightarrow> condition" where
  "restoreVerified client originalTLSProfile t s =
     (case getOpenShiftControllerManager client t of
        Inl e \<Rightarrow>
          ((False, None),
           tlog ''error getting openshift controller manager config during cleanup verification'' s)
      | Inr cfg \<Rightarrow>
          (case unmarshal client (ObservedConfigRaw cfg) of
             Inl e \<Rightarrow>
               ((False, None), tlog ''failed to unmarshal observed config during cleanup'' s)
           | Inr observedConfig \<Rightarrow>
               (let (minTLSVersion, found, err) =
                      NestedString observedConfig [''servingInfo'', ''minTLSVersion'']
                in if err \<noteq> None
                   then ((False, None), tlog ''error reading minTLSVersion during cleanup'' s)
                   else if originalTLSProfile = None
                   then (if found \<and> minTLSVersion = ''VersionTLS12''
                         then ((True, None), tlog ''TLS profile restored to default'' s)
                         else if \<not> found \<or> minTLSVersion = []
                         then ((True, None),
                               tlog ''TLS profile restored to cluster defaults (no explicit TLS version)'' s)
                         else ((False, None),
                               tlog ''Waiting for TLS profile restoration to propagate'' s))
                   else (if found \<and> minTLSVersion \<noteq> ''VersionTLS13''
                         then ((True, None), tlog ''TLS profile restored from Modern'' s)
                         else ((False, None),
                               tlog ''Waiting for TLS profile restoration to propagate'' s)))))"

subsection \<open>The operator starts progressing (lines 169 to 182)\<close>

fun anyProgressing :: "ClusterOperatorStatusCondition list \<Rightarrow> bool" where
  "anyProgressing [] = False"
| "anyProgressing (c # cs) =
     (if Type c = OperatorProgressing \<and> Status c = ConditionTrue then True
      else anyProgressing cs)"

definition progressingStarted :: "cluster \<Rightarrow> condition" where
  "progressingStarted client t s =
     (case getClusterOperator client t of
        Inl e \<Rightarrow> ((False, None), tlog ''error getting clusteroperator'' s)
      | Inr co \<Rightarrow>
          (if anyProgressing (Conditions co)
           then ((True, None), tlog ''Operator is now progressing'' s)
           else ((False, None), s)))"

subsection \<open>The reconciliation is complete (lines 190 to 225)\<close>

fun scanConditions ::
  "ClusterOperatorStatusCondition list \<Rightarrow> bool \<times> bool \<times> bool \<Rightarrow> bool \<times> bool \<times> bool" where
  "scanConditions [] (isAvailable, isProgressing, isDegraded) =
     (isAvailable, isProgressing, isDegraded)"
| "scanConditions (c # cs) (isAvailable, isProgressing, isDegraded) =
     scanConditions cs
       (if Type c = OperatorAvailable \<and> Status c = ConditionTrue then True else isAvailable,
        if Type c = OperatorProgressing \<and> Status c = ConditionFalse then False
        else isProgressing,
        if Type c = OperatorDegraded \<and> Status c = ConditionTrue then True else isDegraded)"

definition reconciliationComplete :: "cluster \<Rightarrow> condition" where
  "reconciliationComplete client t s =
     (case getClusterOperator client t of
        Inl e \<Rightarrow> ((False, None), tlog ''error getting clusteroperator'' s)
      | Inr co \<Rightarrow>
          (let (isAvailable, isProgressing, isDegraded) =
                 scanConditions (Conditions co) (False, True, False)
           in if isDegraded
              then ((False, None), tlog ''Warning: operator is degraded'' s)
              else if isAvailable \<and> \<not> isProgressing
              then ((True, None), tlog ''Operator reconciliation complete'' s)
              else ((False, None), tlog ''Operator still reconciling'' s)))"

subsection \<open>The observed config carries the Modern profile (lines 230 to 308)\<close>

definition expectedCiphers :: "string list" where
  "expectedCiphers =
     [''TLS_AES_128_GCM_SHA256'', ''TLS_AES_256_GCM_SHA384'', ''TLS_CHACHA20_POLY1305_SHA256'']"

text \<open>
  The loop over \<open>expectedCiphers\<close> looks each one up in \<open>cipherSet\<close>, the set of the
  strings of \<open>cipherSuites\<close>, and stops at the first that is missing.
\<close>

fun firstMissing :: "string list \<Rightarrow> string set \<Rightarrow> string option" where
  "firstMissing [] cipherSet = None"
| "firstMissing (expected # es) cipherSet =
     (if expected \<notin> cipherSet then Some expected else firstMissing es cipherSet)"

text \<open>The Go literal \<open>"\"name\""\<close>: the name between two double quotes.\<close>

definition quoted :: "string \<Rightarrow> string" where
  "quoted name = CHR 0x22 # name @ [CHR 0x22]"

definition observedConfigVerified :: "cluster \<Rightarrow> condition" where
  "observedConfigVerified client t s =
     (case getOpenShiftControllerManager client t of
        Inl e \<Rightarrow> ((False, None), tlog ''error getting openshift controller manager config'' s)
      | Inr cfg \<Rightarrow>
          (let observed = ObservedConfigRaw cfg;
               hasTLSVersion = Contains observed (quoted ''minTLSVersion'');
               hasCipherSuites = Contains observed (quoted ''cipherSuites'')
           in if \<not> hasTLSVersion \<or> \<not> hasCipherSuites
              then ((False, None), tlog ''TLS config not yet observed in config'' s)
              else
                (let s1 = tlog ''TLS config successfully observed'' s in
                 case unmarshal client observed of
                   Inl e \<Rightarrow> ((False, None), tlog ''failed to unmarshal observed config'' s1)
                 | Inr observedConfig \<Rightarrow>
                     (let (m, found, err) = NestedMap observedConfig [''servingInfo'']
                      in if err \<noteq> None \<or> \<not> found
                         then ((False, None), tlog ''servingInfo not found in observed config'' s1)
                         else
                           (let (minTLSVersion, found, err) =
                                  NestedString observedConfig [''servingInfo'', ''minTLSVersion'']
                            in if err \<noteq> None \<or> \<not> found \<or> minTLSVersion = []
                               then ((False, None), tlog ''minTLSVersion not properly set'' s1)
                               else if minTLSVersion \<noteq> ''VersionTLS13''
                               then ((False, None), tlog ''minTLSVersion not VersionTLS13 yet'' s1)
                               else
                                 (let (cipherSuites, found, err) =
                                        NestedStringSlice observedConfig
                                          [''servingInfo'', ''cipherSuites'']
                                  in if err \<noteq> None \<or> \<not> found \<or> length cipherSuites = 0
                                     then ((False, None),
                                           tlog ''cipherSuites not properly set'' s1)
                                     else
                                       (case firstMissing expectedCiphers (set cipherSuites) of
                                          Some expected \<Rightarrow>
                                            ((False, None),
                                             tlog ''expected cipher suite not found yet'' s1)
                                        | None \<Rightarrow>
                                            ((True, None),
                                             tlog ''Validated Modern TLS config'' s1))))))))"

section \<open>The convergence poller\<close>

text \<open>
  Modelled from the spec: \<open>wait.PollUntilContextTimeout\<close> of \<open>k8s.io/apimachinery\<close>, the
  Convergence Poller \<open>PollUntilConverged(interval, deadline, immediate, predicate)\<close> of
  the spec, whose code is not among the sources. Interval and deadline must be positive.
  A check is made immediately or after the first interval; a check at which the
  predicate holds ends the session converged; a check that finds the elapsed time at or
  beyond the deadline ends it with the deadline error and without calling the predicate;
  otherwise the session waits one interval for the next tick. The predicate of the Go
  call sites returns \<open>(bool, error)\<close>: an error it returns ends the session with that
  error. The session reports its outcome, the time elapsed since its start and the
  number of calls of the predicate; the state is the one the predicate's calls leave.
\<close>

definition Second :: nat where "Second = 1"
definition Minute :: nat where "Minute = 60 * Second"

record session =
  converged :: bool
  err :: "error option"
  elapsed :: nat
  checks :: nat

function pollLoop ::
  "nat \<Rightarrow> nat \<Rightarrow> (nat \<Rightarrow> 's \<Rightarrow> (bool \<times> error option) \<times> 's) \<Rightarrow> nat \<Rightarrow> nat \<Rightarrow> 's
     \<Rightarrow> session \<times> 's" where
  "pollLoop interval deadline predicate t n s =
     (if interval = 0
      then (\<lparr>converged = False, err = Some InvalidInput, elapsed = t, checks = n\<rparr>, s)
      else if deadline \<le> t
      then (\<lparr>converged = False, err = Some DeadlineExceeded, elapsed = t, checks = n\<rparr>, s)
      else
        (let ((ok, e), s') = predicate t s
         in if e \<noteq> None
            then (\<lparr>converged = False, err = e, elapsed = t, checks = Suc n\<rparr>, s')
            else if ok
            then (\<lparr>converged = True, err = None, elapsed = t, checks = Suc n\<rparr>, s')
            else pollLoop interval deadline predicate (t + interval) (Suc n) s'))"
  by pat_completeness auto
termination
  by (relation "measure (\<lambda>(interval, deadline, predicate, t, n, s). deadline - t)") auto

declare pollLoop.simps [simp del]

definition PollUntilContextTimeout ::
  "nat \<Rightarrow> nat \<Rightarrow> bool \<Rightarrow> (nat \<Rightarrow> 's \<Rightarrow> (bool \<times> error option) \<times> 's) \<Rightarrow> 's \<Rightarrow> session \<times> 's" where
  "PollUntilContextTimeout interval deadline immediate predicate s =
     (if interval = 0 \<or> deadline = 0
      then (\<lparr>converged = False, err = Some InvalidInput, elapsed = 0, checks = 0\<rparr>, s)
      else pollLoop interval deadline predicate (if immediate then 0 else interval) 0 s)"

text \<open>The three terminal outcomes of a session.\<close>

datatype outcome = Converged | TimedOut | Fatal error

definition outcomeOf :: "session \<Rightarrow> outcome" where
  "outcomeOf r =
     (case err r of
        None \<Rightarrow> Converged
      | Some e \<Rightarrow> (if e = DeadlineExceeded then TimedOut else Fatal e))"

section \<open>The scenario\<close>

text \<open>
  The five poll sessions of \<open>testTLSSecurityProfilePropagation\<close>, each with the interval,
  the deadline and the predicate of its call site, started at time \<open>t0\<close>.
\<close>

definition cleanupReconcileSession :: "cluster \<Rightarrow> nat \<Rightarrow> test_state \<Rightarrow> session \<times> test_state" where
  "cleanupReconcileSession client t0 s =
     PollUntilContextTimeout (10 * Second) (10 * Minute) True
       (\<lambda>e. cleanupReconciled client (t0 + e)) s"

definition restoreSession ::
  "cluster \<Rightarrow> TLSSecurityProfile option \<Rightarrow> nat \<Rightarrow> test_state \<Rightarrow> session \<times> test_state" where
  "restoreSession client originalTLSProfile t0 s =
     PollUntilContextTimeout (5 * Second) (2 * Minute) True
       (\<lambda>e. restoreVerified client originalTLSProfile (t0 + e)) s"

definition progressingSession :: "cluster \<Rightarrow> nat \<Rightarrow> test_state \<Rightarrow> session \<times> test_state" where
  "progressingSession client t0 s =
     PollUntilContextTimeout (5 * Second) (5 * Minute) True
       (\<lambda>e. progressingStarted client (t0 + e)) s"

definition reconcileSession :: "cluster \<Rightarrow> nat \<Rightarrow> test_state \<Rightarrow> session \<times> test_state" where
  "reconcileSession client t0 s =
     PollUntilContextTimeout (10 * Second) (15 * Minute) True
       (\<lambda>e. reconciliationComplete client (t0 + e)) s"

definition verifySession :: "cluster \<Rightarrow> nat \<Rightarrow> test_state \<Rightarrow> session \<times> test_state" where
  "verifySession client t0 s =
     PollUntilContextTimeout (5 * Second) (2 * Minute) True
       (\<lambda>e. observedConfigVerified client (t0 + e)) s"

text \<open>
  The function registered with \<open>t.Cleanup\<close> (lines 70 to 165), run at time \<open>t0\<close>. Every
  error returns after a log line; nothing here touches the failure of the test.
\<close>

definition cleanup :: "cluster \<Rightarrow> TLSSecurityProfile option \<Rightarrow> nat \<Rightarrow> test_state \<Rightarrow> test_state" where
  "cleanup client originalTLSProfile t0 s =
     (let s1 = tlog ''Restoring original TLS profile'' s in
      case getAPIServer client t0 of
        Inl e \<Rightarrow> tlog ''failed to get APIServer for cleanup'' s1
      | Inr apiServer \<Rightarrow>
          (case updateAPIServer client t0
                  (apiServer\<lparr>specTLSSecurityProfile := originalTLSProfile\<rparr>) of
             Some e \<Rightarrow> tlog ''failed to restore original TLS profile'' s1
           | None \<Rightarrow>
               (let s2 = tlog ''Waiting for operator to reconcile TLS profile restoration'' s1;
                    (r1, s3) = cleanupReconcileSession client t0 s2
                in if err r1 \<noteq> None
                   then tlog ''operator did not complete reconciliation after restoration'' s3
                   else
                     (let s4 = tlog ''Verifying TLS profile was restored correctly'' s3;
                          (r2, s5) =
                            restoreSession client originalTLSProfile (t0 + elapsed r1) s4
                      in if err r2 \<noteq> None
                         then tlog ''TLS profile was not properly restored in observed config'' s5
                         else s5))))"

text \<open>
  The part of the test body after the cleanup is registered (lines 167 to 310), from time
  \<open>t0\<close>: the time at which it ends and the state it leaves. A failed
  \<open>require.NoError\<close> sets the failure and ends the body.
\<close>

definition modernProfile :: TLSSecurityProfile where
  "modernProfile = \<lparr>profileType = TLSProfileModernType, Modern = Some (), Custom = None\<rparr>"

definition fail :: "test_failure \<Rightarrow> test_state \<Rightarrow> test_state" where
  "fail f s = s\<lparr>failure := Some f\<rparr>"

definition propagationBody :: "cluster \<Rightarrow> nat \<Rightarrow> test_state \<Rightarrow> nat \<times> test_state" where
  "propagationBody client t0 s =
     (let s1 = tlog ''Waiting for operator to detect TLS profile change and start progressing'' s;
          (r1, s2) = progressingSession client t0 s1;
          s3 = (if err r1 \<noteq> None
                then tlog ''Warning: operator did not start progressing within 5 minutes, continuing anyway'' s2
                else s2);
          t1 = t0 + elapsed r1;
          s4 = tlog ''Waiting for operator to complete reconciliation (may take up to 15 minutes)'' s3;
          (r2, s5) = reconcileSession client t1 s4;
          t2 = t1 + elapsed r2
      in case err r2 of
           Some e \<Rightarrow> (t2, fail (NoErrorFailed ''operator did not complete reconciliation'' e) s5)
         | None \<Rightarrow>
             (let s6 = tlog ''Verifying TLS config in observed config'' s5;
                  (r3, s7) = verifySession client t2 s6;
                  t3 = t2 + elapsed r3
              in case err r3 of
                   Some e \<Rightarrow>
                     (t3,
                      fail (NoErrorFailed
                              ''Modern TLS security profile from APIServer was not propagated to OpenShift Controller Manager observed config''
                              e) s7)
                 | None \<Rightarrow> (t3, s7)))"

text \<open>
  The whole test (lines 45 to 311). A failure before the cleanup is registered ends the
  test without cleanup; afterwards the cleanup runs when the body has ended, failed or
  not.
\<close>

definition initialState :: test_state where
  "initialState = \<lparr>logs = [], failure = None\<rparr>"

definition testTLSSecurityProfilePropagation :: "cluster \<Rightarrow> test_state" where
  "testTLSSecurityProfilePropagation client =
     (case mustNewClientset client of
        Some e \<Rightarrow> fail (FrameworkSetup e) initialState
      | None \<Rightarrow>
          (case mustEnsureClusterOperatorStatusIsSet client of
             Some e \<Rightarrow> fail (FrameworkSetup e) initialState
           | None \<Rightarrow>
               (case getAPIServer client 0 of
                  Inl e \<Rightarrow> fail (NoErrorFailed ''failed to get APIServer config'' e) initialState
                | Inr apiServer \<Rightarrow>
                    (let originalTLSProfile = specTLSSecurityProfile apiServer
                     in case updateAPIServer client 0
                               (apiServer\<lparr>specTLSSecurityProfile := Some modernProfile\<rparr>) of
                          Some e \<Rightarrow>
                            fail (NoErrorFailed
                                    ''failed to update APIServer TLS profile to Modern'' e)
                              initialState
                        | None \<Rightarrow>
                            (let (t1, s1) = propagationBody client 0 initialState
                             in cleanup client originalTLSProfile t1 s1)))))"

section \<open>Auxiliary definitions\<close>

text \<open>
  The state that \<open>k\<close> successive calls of the predicate leave, the first at time \<open>t\<close> and
  each next one an interval later: the state of a session that has made \<open>k\<close> checks
  without ending.
\<close>

fun stateAfter ::
  "(nat \<Rightarrow> 's \<Rightarrow> (bool \<times> error option) \<times> 's) \<Rightarrow> nat \<Rightarrow> nat \<Rightarrow> nat \<Rightarrow> 's \<Rightarrow> 's" where
  "stateAfter p I t 0 s = s"
| "stateAfter p I t (Suc k) s = stateAfter p I (t + I) k (snd (p t s))"

section \<open>Example clusters\<close>

text \<open>
  Concrete clusters at which the theorems below are instantiated. In
  \<open>exampleCluster conds raw obj\<close> the setup and the calls on the APIServer resource
  succeed, the clusteroperator always reports the conditions \<open>conds\<close>, the observed
  config always has the raw text \<open>raw\<close>, and \<open>json.Unmarshal\<close> decodes \<open>raw\<close> to \<open>obj\<close>.
\<close>

definition availableTrue :: ClusterOperatorStatusCondition where
  "availableTrue = \<lparr>Type = OperatorAvailable, Status = ConditionTrue, Reason = ''AsExpected''\<rparr>"

definition progressingFalse :: ClusterOperatorStatusCondition where
  "progressingFalse =
     \<lparr>Type = OperatorProgressing, Status = ConditionFalse, Reason = ''AsExpected''\<rparr>"

definition degradedTrue :: ClusterOperatorStatusCondition where
  "degradedTrue = \<lparr>Type = OperatorDegraded, Status = ConditionTrue, Reason = ''SyncError''\<rparr>"

definition exampleCluster ::
  "ClusterOperatorStatusCondition list \<Rightarrow> string \<Rightarrow> object \<Rightarrow> cluster" where
  "exampleCluster conds raw obj =
     \<lparr>mustNewClientset = None,
      mustEnsureClusterOperatorStatusIsSet = None,
      getAPIServer = (\<lambda>t. Inr \<lparr>specTLSSecurityProfile = None\<rparr>),
      updateAPIServer = (\<lambda>t a. None),
      getClusterOperator = (\<lambda>t. Inr \<lparr>Conditions = conds\<rparr>),
      getOpenShiftControllerManager = (\<lambda>t. Inr \<lparr>ObservedConfigRaw = raw\<rparr>),
      unmarshal = (\<lambda>r. if r = raw then Inr obj else Inl UnmarshalError)\<rparr>"

text \<open>
  The observed config of the Modern profile, here with one cipher suite more than the
  three expected ones, and its raw text.
\<close>

definition modernObserved :: object where
  "modernObserved =
     [(''servingInfo'',
       JObject
         [(''cipherSuites'',
           JArray
             [JString ''TLS_AES_128_GCM_SHA256'',
              JString ''TLS_AES_256_GCM_SHA384'',
              JString ''TLS_CHACHA20_POLY1305_SHA256'',
              JString ''TLS_ECDHE_RSA_WITH_AES_128_GCM_SHA256'']),
          (''minTLSVersion'', JString ''VersionTLS13'')])]"

definition modernRaw :: string where
  "modernRaw =
     ''{'' @ quoted ''servingInfo'' @ '':{'' @ quoted ''cipherSuites'' @ '':['' @
     quoted ''TLS_AES_128_GCM_SHA256'' @ '','' @
     quoted ''TLS_AES_256_GCM_SHA384'' @ '','' @
     quoted ''TLS_CHACHA20_POLY1305_SHA256'' @ '','' @
     quoted ''TLS_ECDHE_RSA_WITH_AES_128_GCM_SHA256'' @ ''],'' @
     quoted ''minTLSVersion'' @ '':'' @ quoted ''VersionTLS13'' @ ''}}''"

text \<open>An observed config whose serving section reports the version \<open>v\<close> and nothing else.\<close>

definition versionObserved :: "string \<Rightarrow> object" where
  "versionObserved v = [(''servingInfo'', JObject [(''minTLSVersion'', JString v)])]"

definition versionRaw :: "string \<Rightarrow> string" where
  "versionRaw v =
     ''{'' @ quoted ''servingInfo'' @ '':{'' @ quoted ''minTLSVersion'' @ '':'' @ quoted v @
     ''}}''"

text \<open>An observed config whose serving section reports no version.\<close>

definition noVersionObserved :: object where
  "noVersionObserved = [(''servingInfo'', JObject [])]"

definition noVersionRaw :: string where
  "noVersionRaw = ''{'' @ quoted ''servingInfo'' @ '':{}}''"

text \<open>
  The operator is settled (available, not progressing) and the Modern profile is already
  in the observed config.
\<close>

definition settledCluster :: cluster where
  "settledCluster = exampleCluster [availableTrue, progressingFalse] modernRaw modernObserved"

text \<open>The same, with the operator degraded for good.\<close>

definition degradedCluster :: cluster where
  "degradedCluster =
     exampleCluster [availableTrue, progressingFalse, degradedTrue] modernRaw modernObserved"

text \<open>
  Every read of the clusteroperator and of the observed config fails; the calls on the
  APIServer resource succeed.
\<close>

definition unreachableCluster :: cluster where
  "unreachableCluster =
     \<lparr>mustNewClientset = None,
      mustEnsureClusterOperatorStatusIsSet = None,
      getAPIServer = (\<lambda>t. Inr \<lparr>specTLSSecurityProfile = None\<rparr>),
      updateAPIServer = (\<lambda>t a. None),
      getClusterOperator = (\<lambda>t. Inl (ApiError ''connection refused'')),
      getOpenShiftControllerManager = (\<lambda>t. Inl (ApiError ''connection refused'')),
      unmarshal = (\<lambda>r. Inl UnmarshalError)\<rparr>"

text \<open>A Custom profile with minimum version TLS 1.2, as a saved original profile.\<close>

definition customTLS12 :: TLSSecurityProfile where
  "customTLS12 =
     \<lparr>profileType = TLSProfileCustomType, Modern = None,
      Custom = Some \<lparr>Ciphers = [''ECDHE-RSA-AES128-GCM-SHA256''],
                     MinTLSVersion = ''VersionTLS12''\<rparr>\<rparr>"

text \<open>
  The operator is settled until it notices the change of the profile: from the tenth
  second on it reports that it is progressing.
\<close>

definition progressingTrue :: ClusterOperatorStatusCondition where
  "progressingTrue =
     \<lparr>Type = OperatorProgressing, Status = ConditionTrue, Reason = ''ObservedConfigChanged''\<rparr>"

definition startingCluster :: cluster where
  "startingCluster =
     (exampleCluster [] modernRaw modernObserved)
       \<lparr>getClusterOperator :=
          (\<lambda>t. Inr \<lparr>Conditions = (if t < 10 then [availableTrue, progressingFalse]
                                   else [availableTrue, progressingTrue])\<rparr>)\<rparr>"

text \<open>
  The operator is settled and the serving section of the observed config reports the
  version \<open>v\<close>, or no version at all.
\<close>

definition versionCluster :: "string \<Rightarrow> cluster" where
  "versionCluster v =
     exampleCluster [availableTrue, progressingFalse] (versionRaw v) (versionObserved v)"

definition noVersionCluster :: cluster where
  "noVersionCluster =
     exampleCluster [availableTrue, progressingFalse] noVersionRaw noVersionObserved"

text \<open>
  A predicate whose verdict depends on the state it is handed: the state counts its
  calls, and it holds from its third call on.
\<close>

definition thirdCall :: "nat \<Rightarrow> nat \<Rightarrow> (bool \<times> error option) \<times> nat" where
  "thirdCall t calls = ((2 \<le> calls, None), Suc calls)"

text \<open>
  The same observed config in a raw text that writes the first letter of the key
  \<open>minTLSVersion\<close> as the JSON escape of its code point (a backslash, \<open>u006d\<close>):
  \<open>json.Unmarshal\<close> decodes the escape, so the text decodes to the same object, but the
  text does not contain the key as the predicate looks for it.
\<close>

definition escapedRaw :: string where
  "escapedRaw =
     ''{'' @ quoted ''servingInfo'' @ '':{'' @ quoted ''cipherSuites'' @ '':['' @
     quoted ''TLS_AES_128_GCM_SHA256'' @ '','' @
     quoted ''TLS_AES_256_GCM_SHA384'' @ '','' @
     quoted ''TLS_CHACHA20_POLY1305_SHA256'' @ '','' @
     quoted ''TLS_ECDHE_RSA_WITH_AES_128_GCM_SHA256'' @ ''],'' @
     quoted (CHR 0x5C # ''u006dinTLSVersion'') @ '':'' @ quoted ''VersionTLS13'' @ ''}}''"

definition escapedCluster :: cluster where
  "escapedCluster = exampleCluster [availableTrue, progressingFalse] escapedRaw modernObserved"

section \<open>Properties of the poller\<close>

text \<open>
  The loop unfolds one check at a time; the lemmas below follow a session through its
  checks.
\<close>

lemma pollLoop_unfold:
  "0 < I \<Longrightarrow> t < D \<Longrightarrow>
   pollLoop I D p t n s =
     (let ((ok, e), s') = p t s
      in if e \<noteq> None
         then (\<lparr>converged = False, err = e, elapsed = t, checks = Suc n\<rparr>, s')
         else if ok
         then (\<lparr>converged = True, err = None, elapsed = t, checks = Suc n\<rparr>, s')
         else pollLoop I D p (t + I) (Suc n) s')"
  by (subst pollLoop.simps) simp

lemma pollLoop_deadline:
  "0 < I \<Longrightarrow> D \<le> t \<Longrightarrow>
   pollLoop I D p t n s =
     (\<lparr>converged = False, err = Some DeadlineExceeded, elapsed = t, checks = n\<rparr>, s)"
  by (subst pollLoop.simps) simp

lemma pollLoop_false_step:
  assumes "0 < I" "t < D" "fst (p t s) = (False, None)"
  shows "pollLoop I D p t n s = pollLoop I D p (t + I) (Suc n) (snd (p t s))"
  using assms by (cases "p t s") (auto simp: pollLoop_unfold)

lemma pollLoop_true_step:
  assumes "0 < I" "t < D" "fst (p t s) = (True, None)"
  shows "pollLoop I D p t n s =
           (\<lparr>converged = True, err = None, elapsed = t, checks = Suc n\<rparr>, snd (p t s))"
  using assms by (cases "p t s") (auto simp: pollLoop_unfold)

lemma pollLoop_always_false:
  assumes I: "0 < I" and f: "\<forall>t s. fst (p t s) = (False, None)"
  shows "converged (fst (pollLoop I D p t n s)) = False \<and>
         err (fst (pollLoop I D p t n s)) = Some DeadlineExceeded \<and>
         max D t \<le> elapsed (fst (pollLoop I D p t n s)) \<and>
         elapsed (fst (pollLoop I D p t n s)) < max D t + I"
proof (induction "D - t" arbitrary: t n s rule: less_induct)
  case less
  show ?case
  proof (cases "D \<le> t")
    case True
    with I show ?thesis by (simp add: pollLoop_deadline)
  next
    case False
    then have lt: "t < D" by simp
    have step: "pollLoop I D p t n s = pollLoop I D p (t + I) (Suc n) (snd (p t s))"
      using pollLoop_false_step[of I t D p s n] I lt f by simp
    have "D - (t + I) < D - t" using I lt by simp
    from less.hyps[OF this, of "Suc n" "snd (p t s)"]
    have ih: "converged (fst (pollLoop I D p (t + I) (Suc n) (snd (p t s)))) = False \<and>
         err (fst (pollLoop I D p (t + I) (Suc n) (snd (p t s)))) = Some DeadlineExceeded \<and>
         max D (t + I) \<le> elapsed (fst (pollLoop I D p (t + I) (Suc n) (snd (p t s)))) \<and>
         elapsed (fst (pollLoop I D p (t + I) (Suc n) (snd (p t s)))) < max D (t + I) + I" .
    show ?thesis
    proof (cases "D \<le> t + I")
      case True
      then show ?thesis using step lt I by (simp add: pollLoop_deadline)
    next
      case False
      then show ?thesis using ih step lt by (simp add: max_def)
    qed
  qed
qed

lemma pollLoop_zero_interval:
  "pollLoop 0 D p t n s =
     (\<lparr>converged = False, err = Some InvalidInput, elapsed = t, checks = n\<rparr>, s)"
  by (subst pollLoop.simps) simp

lemma pollLoop_false_steps:
  assumes I: "0 < I"
  shows "(\<forall>j<k. t + j * I < D \<and> (\<forall>s. fst (p (t + j * I) s) = (False, None))) \<Longrightarrow>
         pollLoop I D p t n s = pollLoop I D p (t + k * I) (n + k) (stateAfter p I t k s)"
proof (induction k arbitrary: t n s)
  case 0
  show ?case by simp
next
  case (Suc k)
  have now: "t < D" "fst (p t s) = (False, None)"
    using Suc.prems[rule_format, of 0] by simp_all
  have later: "\<forall>j<k. (t + I) + j * I < D \<and> (\<forall>s. fst (p ((t + I) + j * I) s) = (False, None))"
  proof (intro allI impI)
    fix j assume "j < k"
    then have "Suc j < Suc k" by simp
    from Suc.prems[rule_format, OF this]
    show "(t + I) + j * I < D \<and> (\<forall>s. fst (p ((t + I) + j * I) s) = (False, None))"
      by (simp add: add.assoc)
  qed
  have "pollLoop I D p t n s = pollLoop I D p (t + I) (Suc n) (snd (p t s))"
    using pollLoop_false_step[of I t D p s n] I now by simp
  also have "\<dots> = pollLoop I D p ((t + I) + k * I) (Suc n + k) (stateAfter p I (t + I) k (snd (p t s)))"
    using Suc.IH[OF later] .
  finally show ?case by (simp add: add.assoc)
qed


lemma pollLoop_converged_iff:
  assumes I: "0 < I"
  shows "converged (fst (pollLoop I D p t n s)) = (err (fst (pollLoop I D p t n s)) = None)"
proof (induction "D - t" arbitrary: t n s rule: less_induct)
  case less
  show ?case
  proof (cases "D \<le> t")
    case True
    with I show ?thesis by (simp add: pollLoop_deadline)
  next
    case False
    then have lt: "t < D" by simp
    obtain ok e u where ps: "p t s = ((ok, e), u)" by (cases "p t s") auto
    show ?thesis
    proof (cases "e = None \<and> \<not> ok")
      case True
      then have "fst (p t s) = (False, None)" using ps by simp
      with pollLoop_false_step[of I t D p s n] I lt
      have step: "pollLoop I D p t n s = pollLoop I D p (t + I) (Suc n) (snd (p t s))" by simp
      have "D - (t + I) < D - t" using I lt by simp
      from less.hyps[OF this, of "Suc n" "snd (p t s)"]
      show ?thesis unfolding step .
    next
      case False
      then show ?thesis using ps I lt by (auto simp: pollLoop_unfold)
    qed
  qed
qed

lemma pollLoop_verdict_only:
  assumes f: "\<forall>t s s'. fst (p t s) = fst (p t s')"
  shows "fst (pollLoop I D p t n s) = fst (pollLoop I D p t n s')"
proof (cases "I = 0")
  case True
  then show ?thesis by (simp add: pollLoop_zero_interval)
next
  case False
  then have I: "0 < I" by simp
  show ?thesis
  proof (induction "D - t" arbitrary: t n s s' rule: less_induct)
    case less
    show ?case
    proof (cases "D \<le> t")
      case True
      with I show ?thesis by (simp add: pollLoop_deadline)
    next
      case False
      then have lt: "t < D" by simp
      obtain ok e u where ps: "p t s = ((ok, e), u)" by (cases "p t s") auto
      obtain u' where ps': "p t s' = ((ok, e), u')"
        using f[rule_format, of t s s'] ps by (cases "p t s'") auto
      have "D - (t + I) < D - t" using I lt by simp
      from less.hyps[OF this, of "Suc n" u u'] ps ps' I lt
      show ?thesis by (simp add: pollLoop_unfold)
    qed
  qed
qed

lemma pollLoop_preserves:
  assumes f: "\<forall>t s. g (snd (p t s)) = g s"
  shows "g (snd (pollLoop I D p t n s)) = g s"
proof (cases "I = 0")
  case True
  then show ?thesis by (simp add: pollLoop_zero_interval)
next
  case False
  then have I: "0 < I" by simp
  show ?thesis
  proof (induction "D - t" arbitrary: t n s rule: less_induct)
    case less
    show ?case
    proof (cases "D \<le> t")
      case True
      with I show ?thesis by (simp add: pollLoop_deadline)
    next
      case False
      then have lt: "t < D" by simp
      obtain ok e u where ps: "p t s = ((ok, e), u)" by (cases "p t s") auto
      have gu: "g u = g s" using f[rule_format, of t s] ps by simp
      have "D - (t + I) < D - t" using I lt by simp
      from less.hyps[OF this, of "Suc n" u] ps gu I lt
      show ?thesis by (simp add: pollLoop_unfold)
    qed
  qed
qed

lemma pollLoop_timeout_at:
  assumes I: "0 < I"
    and before: "\<forall>j<k. t + j * I < D"
    and after: "D \<le> t + k * I"
    and f: "\<forall>t s. fst (p t s) = (False, None)"
  shows "pollLoop I D p t n s =
           (\<lparr>converged = False, err = Some DeadlineExceeded, elapsed = t + k * I,
             checks = n + k\<rparr>, stateAfter p I t k s)"
proof -
  have "\<forall>j<k. t + j * I < D \<and> (\<forall>s. fst (p (t + j * I) s) = (False, None))"
    using before f by simp
  from pollLoop_false_steps[OF I this, of n s]
  have "pollLoop I D p t n s = pollLoop I D p (t + k * I) (n + k) (stateAfter p I t k s)" .
  also have "\<dots> = (\<lparr>converged = False, err = Some DeadlineExceeded, elapsed = t + k * I,
             checks = n + k\<rparr>, stateAfter p I t k s)"
    using I after by (simp add: pollLoop_deadline)
  finally show ?thesis .
qed

lemma pollLoop_converges_at:
  assumes I: "0 < I"
    and before: "\<forall>j<k. \<forall>s. fst (p (t + j * I) s) = (False, None)"
    and now: "\<forall>s. fst (p (t + k * I) s) = (True, None)"
    and lt: "t + k * I < D"
  shows "pollLoop I D p t n s =
           (\<lparr>converged = True, err = None, elapsed = t + k * I, checks = Suc (n + k)\<rparr>,
            snd (p (t + k * I) (stateAfter p I t k s)))"
proof -
  have "\<forall>j<k. t + j * I < D \<and> (\<forall>s. fst (p (t + j * I) s) = (False, None))"
  proof (intro allI impI conjI)
    fix j assume "j < k"
    then have "j * I \<le> k * I" by (simp add: mult_le_mono1)
    then show "t + j * I < D" using lt by linarith
  next
    fix j s assume "j < k"
    then show "fst (p (t + j * I) s) = (False, None)" using before by simp
  qed
  from pollLoop_false_steps[OF I this, of n s]
  have "pollLoop I D p t n s = pollLoop I D p (t + k * I) (n + k) (stateAfter p I t k s)" .
  also have "\<dots> = (\<lparr>converged = True, err = None, elapsed = t + k * I, checks = Suc (n + k)\<rparr>,
            snd (p (t + k * I) (stateAfter p I t k s)))"
    using pollLoop_true_step[of I "t + k * I" D p "stateAfter p I t k s" "n + k"] I lt now
    by simp
  finally show ?thesis .
qed


lemma PollUntilContextTimeout_verdict_only:
  assumes "\<forall>t s s'. fst (p t s) = fst (p t s')"
  shows "fst (PollUntilContextTimeout I D imm p s) = fst (PollUntilContextTimeout I D imm p s')"
  using pollLoop_verdict_only[OF assms, of I D "if imm then 0 else I" 0 s s']
  by (simp add: PollUntilContextTimeout_def)

lemma PollUntilContextTimeout_preserves:
  assumes "\<forall>t s. g (snd (p t s)) = g s"
  shows "g (snd (PollUntilContextTimeout I D imm p s)) = g s"
  using pollLoop_preserves[of g p I D "if imm then 0 else I" 0 s] assms
  by (simp add: PollUntilContextTimeout_def)

lemma PollUntilContextTimeout_always_false:
  assumes I: "0 < I" and D: "I < D" and f: "\<forall>t s. fst (p t s) = (False, None)"
  shows "converged (fst (PollUntilContextTimeout I D imm p s)) = False \<and>
         err (fst (PollUntilContextTimeout I D imm p s)) = Some DeadlineExceeded \<and>
         D \<le> elapsed (fst (PollUntilContextTimeout I D imm p s)) \<and>
         elapsed (fst (PollUntilContextTimeout I D imm p s)) < D + I"
proof -
  have m: "max D (if imm then 0 else I) = D" using D by (simp add: max_def)
  from pollLoop_always_false[OF I f, of D "if imm then 0 else I" 0 s]
  show ?thesis unfolding m using I D by (simp add: PollUntilContextTimeout_def)
qed

lemma PollUntilContextTimeout_timeout_at:
  assumes I: "0 < I" and D: "D = k * I" and k: "0 < k"
    and f: "\<forall>t s. fst (p t s) = (False, None)"
  shows "fst (PollUntilContextTimeout I D True p s) =
           \<lparr>converged = False, err = Some DeadlineExceeded, elapsed = D, checks = k\<rparr>"
proof -
  have b: "\<forall>j<k. 0 + j * I < D" using I D by simp
  have a: "D \<le> 0 + k * I" using D by simp
  from pollLoop_timeout_at[OF I b a f, of 0 s] I k D
  show ?thesis by (simp add: PollUntilContextTimeout_def)
qed

lemma PollUntilContextTimeout_true_now:
  assumes "0 < I" "0 < D" "fst (p 0 s) = (True, None)"
  shows "PollUntilContextTimeout I D True p s =
           (\<lparr>converged = True, err = None, elapsed = 0, checks = 1\<rparr>, snd (p 0 s))"
  using assms pollLoop_true_step[of I 0 D p s 0]
  by (simp add: PollUntilContextTimeout_def)

section \<open>Properties of the predicates\<close>


lemma cleanupReconciled_verdict_only:
  "fst (cleanupReconciled client t s) = fst (cleanupReconciled client t s')"
  by (auto simp: cleanupReconciled_def split: sum.splits prod.splits)

lemma cleanupReconciled_failure: "failure (snd (cleanupReconciled client t s)) = failure s"
  by (auto simp: cleanupReconciled_def tlog_def split: sum.splits prod.splits)


lemma restoreVerified_verdict_only:
  "fst (restoreVerified client orig t s) = fst (restoreVerified client orig t s')"
  by (auto simp: restoreVerified_def split: sum.splits prod.splits)

lemma restoreVerified_failure: "failure (snd (restoreVerified client orig t s)) = failure s"
  by (auto simp: restoreVerified_def tlog_def split: sum.splits prod.splits)


lemma progressingStarted_verdict_only:
  "fst (progressingStarted client t s) = fst (progressingStarted client t s')"
  by (auto simp: progressingStarted_def split: sum.splits prod.splits)

lemma progressingStarted_failure: "failure (snd (progressingStarted client t s)) = failure s"
  by (auto simp: progressingStarted_def tlog_def split: sum.splits prod.splits)


lemma reconciliationComplete_verdict_only:
  "fst (reconciliationComplete client t s) = fst (reconciliationComplete client t s')"
  by (auto simp: reconciliationComplete_def split: sum.splits prod.splits)

lemma reconciliationComplete_failure:
  "failure (snd (reconciliationComplete client t s)) = failure s"
  by (auto simp: reconciliationComplete_def tlog_def split: sum.splits prod.splits)


lemma observedConfigVerified_verdict_only:
  "fst (observedConfigVerified client t s) = fst (observedConfigVerified client t s')"
  by (auto simp: observedConfigVerified_def Let_def split: sum.splits prod.splits option.splits)

lemma observedConfigVerified_failure:
  "failure (snd (observedConfigVerified client t s)) = failure s"
  by (auto simp: observedConfigVerified_def Let_def tlog_def
      split: sum.splits prod.splits option.splits)

text \<open>
  The same along the run of a session: the verdicts are those the predicate gives at the
  states the session itself passes through, so the predicate may depend on the state.
\<close>

lemma pollLoop_false_steps_run:
  assumes I: "0 < I"
  shows "(\<forall>j<k. t + j * I < D \<and> fst (p (t + j * I) (stateAfter p I t j s)) = (False, None)) \<Longrightarrow>
         pollLoop I D p t n s = pollLoop I D p (t + k * I) (n + k) (stateAfter p I t k s)"
proof (induction k arbitrary: t n s)
  case 0
  show ?case by simp
next
  case (Suc k)
  have now: "t < D" "fst (p t s) = (False, None)"
    using Suc.prems[rule_format, of 0] by simp_all
  have later: "\<forall>j<k. (t + I) + j * I < D \<and>
                 fst (p ((t + I) + j * I) (stateAfter p I (t + I) j (snd (p t s)))) = (False, None)"
  proof (intro allI impI)
    fix j assume "j < k"
    then have "Suc j < Suc k" by simp
    from Suc.prems[rule_format, OF this]
    show "(t + I) + j * I < D \<and>
          fst (p ((t + I) + j * I) (stateAfter p I (t + I) j (snd (p t s)))) = (False, None)"
      by (simp add: add.assoc)
  qed
  have "pollLoop I D p t n s = pollLoop I D p (t + I) (Suc n) (snd (p t s))"
    using pollLoop_false_step[of I t D p s n] I now by simp
  also have "\<dots> = pollLoop I D p ((t + I) + k * I) (Suc n + k)
                     (stateAfter p I (t + I) k (snd (p t s)))"
    using Suc.IH[OF later] .
  finally show ?case by (simp add: add.assoc)
qed

lemma pollLoop_converges_at_run:
  assumes I: "0 < I"
    and before: "\<forall>j<k. fst (p (t + j * I) (stateAfter p I t j s)) = (False, None)"
    and now: "fst (p (t + k * I) (stateAfter p I t k s)) = (True, None)"
    and lt: "t + k * I < D"
  shows "pollLoop I D p t n s =
           (\<lparr>converged = True, err = None, elapsed = t + k * I, checks = Suc (n + k)\<rparr>,
            snd (p (t + k * I) (stateAfter p I t k s)))"
proof -
  have "\<forall>j<k. t + j * I < D \<and> fst (p (t + j * I) (stateAfter p I t j s)) = (False, None)"
  proof (intro allI impI conjI)
    fix j assume "j < k"
    then have "j * I \<le> k * I" by (simp add: mult_le_mono1)
    then show "t + j * I < D" using lt by linarith
  next
    fix j assume "j < k"
    then show "fst (p (t + j * I) (stateAfter p I t j s)) = (False, None)" using before by simp
  qed
  from pollLoop_false_steps_run[OF I this, of n]
  have "pollLoop I D p t n s = pollLoop I D p (t + k * I) (n + k) (stateAfter p I t k s)" .
  also have "\<dots> = (\<lparr>converged = True, err = None, elapsed = t + k * I, checks = Suc (n + k)\<rparr>,
            snd (p (t + k * I) (stateAfter p I t k s)))"
    using pollLoop_true_step[of I "t + k * I" D p "stateAfter p I t k s" "n + k"] I lt now
    by simp
  finally show ?thesis .
qed

lemma operator_fetch_error:
  assumes "isl (getClusterOperator client t)"
  shows "fst (cleanupReconciled client t s) = (False, None)"
    and "fst (progressingStarted client t s) = (False, None)"
    and "fst (reconciliationComplete client t s) = (False, None)"
  using assms
  by (auto simp: cleanupReconciled_def progressingStarted_def reconciliationComplete_def
      split: sum.splits)





lemma operator_sessions_time_out:
  assumes "\<forall>e. isl (getClusterOperator client (t0 + e))"
  shows "fst (cleanupReconcileSession client t0 s) =
           \<lparr>converged = False, err = Some DeadlineExceeded, elapsed = 10 * Minute, checks = 60\<rparr>"
    and "fst (progressingSession client t0 s) =
           \<lparr>converged = False, err = Some DeadlineExceeded, elapsed = 5 * Minute, checks = 60\<rparr>"
    and "fst (reconcileSession client t0 s) =
           \<lparr>converged = False, err = Some DeadlineExceeded, elapsed = 15 * Minute, checks = 90\<rparr>"
proof -
  have I10: "0 < 10 * Second" and I5: "0 < 5 * Second" by (simp_all add: Second_def)
  have D10: "10 * Minute = 60 * (10 * Second)" and D5: "5 * Minute = 60 * (5 * Second)"
    and D15: "15 * Minute = 90 * (10 * Second)"
    by (simp_all add: Second_def Minute_def)
  have f1: "\<forall>e s. fst (cleanupReconciled client (t0 + e) s) = (False, None)"
    using assms by (simp add: operator_fetch_error)
  have f2: "\<forall>e s. fst (progressingStarted client (t0 + e) s) = (False, None)"
    using assms by (simp add: operator_fetch_error)
  have f3: "\<forall>e s. fst (reconciliationComplete client (t0 + e) s) = (False, None)"
    using assms by (simp add: operator_fetch_error)
  from PollUntilContextTimeout_timeout_at[OF I10 D10 _ f1, of s]
  show "fst (cleanupReconcileSession client t0 s) =
           \<lparr>converged = False, err = Some DeadlineExceeded, elapsed = 10 * Minute, checks = 60\<rparr>"
    by (simp add: cleanupReconcileSession_def)
  from PollUntilContextTimeout_timeout_at[OF I5 D5 _ f2, of s]
  show "fst (progressingSession client t0 s) =
           \<lparr>converged = False, err = Some DeadlineExceeded, elapsed = 5 * Minute, checks = 60\<rparr>"
    by (simp add: progressingSession_def)
  from PollUntilContextTimeout_timeout_at[OF I10 D15 _ f3, of s]
  show "fst (reconcileSession client t0 s) =
           \<lparr>converged = False, err = Some DeadlineExceeded, elapsed = 15 * Minute, checks = 90\<rparr>"
    by (simp add: reconcileSession_def)
qed


lemma pollLoop_elapsed_ge:
  assumes I: "0 < I"
  shows "t \<le> elapsed (fst (pollLoop I D p t n s))"
proof (induction "D - t" arbitrary: t n s rule: less_induct)
  case less
  show ?case
  proof (cases "D \<le> t")
    case True
    with I show ?thesis by (simp add: pollLoop_deadline)
  next
    case False
    then have lt: "t < D" by simp
    obtain ok e u where ps: "p t s = ((ok, e), u)" by (cases "p t s") auto
    show ?thesis
    proof (cases "e = None \<and> \<not> ok")
      case True
      then have "fst (p t s) = (False, None)" using ps by simp
      with pollLoop_false_step[of I t D p s n] I lt
      have step: "pollLoop I D p t n s = pollLoop I D p (t + I) (Suc n) (snd (p t s))" by simp
      have "D - (t + I) < D - t" using I lt by simp
      from less.hyps[OF this, of "Suc n" "snd (p t s)"]
      show ?thesis unfolding step by simp
    next
      case False
      then show ?thesis using ps I lt by (auto simp: pollLoop_unfold)
    qed
  qed
qed

lemma scanConditions_keeps_degraded:
  "snd (snd (scanConditions cs (a, p, True)))"
  by (induction cs arbitrary: a p) simp_all

lemma scanConditions_degraded:
  assumes "c \<in> set cs" and "Type c = OperatorDegraded" and "Status c = ConditionTrue"
  shows "snd (snd (scanConditions cs (a, p, d)))"
  using assms
proof (induction cs arbitrary: a p d)
  case Nil
  then show ?case by simp
next
  case (Cons x xs)
  show ?case
  proof (cases "x = c")
    case True
    with Cons.prems show ?thesis by (simp add: scanConditions_keeps_degraded)
  next
    case False
    with Cons.prems have "c \<in> set xs" by simp
    from Cons.IH[OF this Cons.prems(2) Cons.prems(3)] show ?thesis by simp
  qed
qed

lemma reconciliationComplete_degraded:
  assumes "getClusterOperator client t = Inr co"
    and "c \<in> set (Conditions co)" and "Type c = OperatorDegraded"
    and "Status c = ConditionTrue"
  shows "reconciliationComplete client t s = ((False, None), tlog ''Warning: operator is degraded'' s)"
proof -
  obtain a p d where sc: "scanConditions (Conditions co) (False, True, False) = (a, p, d)"
    by (cases "scanConditions (Conditions co) (False, True, False)") auto
  from scanConditions_degraded[OF assms(2) assms(3) assms(4), of False True False] sc
  have d by simp
  with assms(1) sc show ?thesis by (simp add: reconciliationComplete_def)
qed

lemma reconcileSession_degraded_steps:
  assumes deg: "\<forall>j<k. \<exists>co c. getClusterOperator client (t0 + j * (10 * Second)) = Inr co \<and>
                  c \<in> set (Conditions co) \<and> Type c = OperatorDegraded \<and>
                  Status c = ConditionTrue"
    and k: "k * (10 * Second) \<le> 15 * Minute"
  shows "k * (10 * Second) \<le> elapsed (fst (reconcileSession client t0 s))"
proof -
  let ?p = "\<lambda>e. reconciliationComplete client (t0 + e)"
  have I: "0 < 10 * Second" by (simp add: Second_def)
  have f: "\<forall>j<k. 0 + j * (10 * Second) < 15 * Minute \<and>
             (\<forall>s. fst (?p (0 + j * (10 * Second)) s) = (False, None))"
  proof (intro allI impI conjI)
    fix j assume j: "j < k"
    then have "Suc j \<le> k" by simp
    then have "Suc j * (10 * Second) \<le> k * (10 * Second)" by (rule mult_le_mono1)
    with k show "0 + j * (10 * Second) < 15 * Minute" by (simp add: Second_def)
  next
    fix j s assume j: "j < k"
    with deg obtain co c where
      "getClusterOperator client (t0 + j * (10 * Second)) = Inr co"
      "c \<in> set (Conditions co)" "Type c = OperatorDegraded" "Status c = ConditionTrue"
      by blast
    from reconciliationComplete_degraded[OF this, of s]
    show "fst (?p (0 + j * (10 * Second)) s) = (False, None)" by simp
  qed
  from pollLoop_false_steps[OF I f, of 0 s]
  have "pollLoop (10 * Second) (15 * Minute) ?p 0 0 s =
          pollLoop (10 * Second) (15 * Minute) ?p (0 + k * (10 * Second)) (0 + k)
            (stateAfter ?p (10 * Second) 0 k s)" .
  moreover have "0 + k * (10 * Second) \<le>
          elapsed (fst (pollLoop (10 * Second) (15 * Minute) ?p (0 + k * (10 * Second)) (0 + k)
            (stateAfter ?p (10 * Second) 0 k s)))"
    by (rule pollLoop_elapsed_ge[OF I])
  ultimately show ?thesis
    by (simp add: reconcileSession_def PollUntilContextTimeout_def Second_def Minute_def)
qed

lemma reconcileSession_always_degraded:
  assumes deg: "\<forall>e. \<exists>co c. getClusterOperator client (t0 + e) = Inr co \<and>
                  c \<in> set (Conditions co) \<and> Type c = OperatorDegraded \<and>
                  Status c = ConditionTrue"
  shows "fst (reconcileSession client t0 s) =
           \<lparr>converged = False, err = Some DeadlineExceeded, elapsed = 15 * Minute, checks = 90\<rparr>"
proof -
  have f: "\<forall>e s. fst (reconciliationComplete client (t0 + e) s) = (False, None)"
  proof (intro allI)
    fix e s
    from deg obtain co c where
      "getClusterOperator client (t0 + e) = Inr co"
      "c \<in> set (Conditions co)" "Type c = OperatorDegraded" "Status c = ConditionTrue"
      by blast
    from reconciliationComplete_degraded[OF this, of s]
    show "fst (reconciliationComplete client (t0 + e) s) = (False, None)" by simp
  qed
  have I: "0 < 10 * Second" by (simp add: Second_def)
  have D: "15 * Minute = 90 * (10 * Second)" by (simp add: Second_def Minute_def)
  from PollUntilContextTimeout_timeout_at[OF I D _ f, of s]
  show ?thesis by (simp add: reconcileSession_def)
qed

section \<open>Properties of the sessions of the scenario\<close>

text \<open>
  The sessions leave the failure of the test as it was, and their results do not depend
  on the test state they start from.
\<close>

lemma sessions_failure:
  shows "failure (snd (cleanupReconcileSession client t0 s)) = failure s"
    and "failure (snd (restoreSession client orig t0 s)) = failure s"
    and "failure (snd (progressingSession client t0 s)) = failure s"
    and "failure (snd (reconcileSession client t0 s)) = failure s"
    and "failure (snd (verifySession client t0 s)) = failure s"
proof -
  show "failure (snd (cleanupReconcileSession client t0 s)) = failure s"
    unfolding cleanupReconcileSession_def
    by (rule PollUntilContextTimeout_preserves) (simp add: cleanupReconciled_failure)
  show "failure (snd (restoreSession client orig t0 s)) = failure s"
    unfolding restoreSession_def
    by (rule PollUntilContextTimeout_preserves) (simp add: restoreVerified_failure)
  show "failure (snd (progressingSession client t0 s)) = failure s"
    unfolding progressingSession_def
    by (rule PollUntilContextTimeout_preserves) (simp add: progressingStarted_failure)
  show "failure (snd (reconcileSession client t0 s)) = failure s"
    unfolding reconcileSession_def
    by (rule PollUntilContextTimeout_preserves) (simp add: reconciliationComplete_failure)
  show "failure (snd (verifySession client t0 s)) = failure s"
    unfolding verifySession_def
    by (rule PollUntilContextTimeout_preserves) (simp add: observedConfigVerified_failure)
qed

lemma sessions_verdict_only:
  shows "fst (cleanupReconcileSession client t0 s) = fst (cleanupReconcileSession client t0 s')"
    and "fst (restoreSession client orig t0 s) = fst (restoreSession client orig t0 s')"
    and "fst (progressingSession client t0 s) = fst (progressingSession client t0 s')"
    and "fst (reconcileSession client t0 s) = fst (reconcileSession client t0 s')"
    and "fst (verifySession client t0 s) = fst (verifySession client t0 s')"
proof -
  show "fst (cleanupReconcileSession client t0 s) = fst (cleanupReconcileSession client t0 s')"
    unfolding cleanupReconcileSession_def
    by (rule PollUntilContextTimeout_verdict_only)
       (use cleanupReconciled_verdict_only in blast)
  show "fst (restoreSession client orig t0 s) = fst (restoreSession client orig t0 s')"
    unfolding restoreSession_def
    by (rule PollUntilContextTimeout_verdict_only)
       (use restoreVerified_verdict_only in blast)
  show "fst (progressingSession client t0 s) = fst (progressingSession client t0 s')"
    unfolding progressingSession_def
    by (rule PollUntilContextTimeout_verdict_only)
       (use progressingStarted_verdict_only in blast)
  show "fst (reconcileSession client t0 s) = fst (reconcileSession client t0 s')"
    unfolding reconcileSession_def
    by (rule PollUntilContextTimeout_verdict_only)
       (use reconciliationComplete_verdict_only in blast)
  show "fst (verifySession client t0 s) = fst (verifySession client t0 s')"
    unfolding verifySession_def
    by (rule PollUntilContextTimeout_verdict_only)
       (use observedConfigVerified_verdict_only in blast)
qed

lemma tlog_failure: "failure (tlog msg s) = failure s"
  by (simp add: tlog_def)

lemma tlog_logs: "logs (tlog msg s) = logs s @ [msg]"
  by (simp add: tlog_def)

lemma cleanup_failure: "failure (cleanup client orig t0 s) = failure s"
proof (cases "getAPIServer client t0")
  case (Inl e)
  then show ?thesis by (simp add: cleanup_def tlog_failure)
next
  case (Inr a)
  show ?thesis
  proof (cases "updateAPIServer client t0 (a\<lparr>specTLSSecurityProfile := orig\<rparr>)")
    case (Some e)
    with Inr show ?thesis by (simp add: cleanup_def tlog_failure)
  next
    case None
    let ?s2 = "tlog ''Waiting for operator to reconcile TLS profile restoration''
                 (tlog ''Restoring original TLS profile'' s)"
    obtain r1 s3 where c1: "cleanupReconcileSession client t0 ?s2 = (r1, s3)"
      by (cases "cleanupReconcileSession client t0 ?s2") auto
    have f3: "failure s3 = failure s"
      using sessions_failure(1)[of client t0 ?s2] c1 by (simp add: tlog_failure)
    let ?s4 = "tlog ''Verifying TLS profile was restored correctly'' s3"
    obtain r2 s5 where c2: "restoreSession client orig (t0 + elapsed r1) ?s4 = (r2, s5)"
      by (cases "restoreSession client orig (t0 + elapsed r1) ?s4") auto
    have f5: "failure s5 = failure s"
      using sessions_failure(2)[of client orig "t0 + elapsed r1" ?s4] c2 f3
      by (simp add: tlog_failure)
    from Inr None c1 c2 f3 f5 show ?thesis
      by (simp add: cleanup_def Let_def tlog_failure)
  qed
qed

lemma cleanup_get_failed:
  assumes "isl (getAPIServer client t0)"
  shows "logs (cleanup client orig t0 s) =
           logs s @ [''Restoring original TLS profile'', ''failed to get APIServer for cleanup'']"
  using assms by (cases "getAPIServer client t0") (simp_all add: cleanup_def tlog_logs)

lemma cleanup_update_failed:
  assumes "getAPIServer client t0 = Inr a"
    and "updateAPIServer client t0 (a\<lparr>specTLSSecurityProfile := orig\<rparr>) \<noteq> None"
  shows "logs (cleanup client orig t0 s) =
           logs s @ [''Restoring original TLS profile'', ''failed to restore original TLS profile'']"
  using assms by (auto simp: cleanup_def tlog_logs)

lemma cleanup_reconcile_failed:
  assumes "getAPIServer client t0 = Inr a"
    and "updateAPIServer client t0 (a\<lparr>specTLSSecurityProfile := orig\<rparr>) = None"
    and "err (fst (cleanupReconcileSession client t0 s)) \<noteq> None"
  shows "last (logs (cleanup client orig t0 s)) =
           ''operator did not complete reconciliation after restoration''"
proof -
  let ?s2 = "tlog ''Waiting for operator to reconcile TLS profile restoration''
               (tlog ''Restoring original TLS profile'' s)"
  obtain r1 s3 where c1: "cleanupReconcileSession client t0 ?s2 = (r1, s3)"
    by (cases "cleanupReconcileSession client t0 ?s2") auto
  have "r1 = fst (cleanupReconcileSession client t0 s)"
    using sessions_verdict_only(1)[of client t0 ?s2 s] c1 by simp
  with assms(3) have "err r1 \<noteq> None" by simp
  with assms(1) assms(2) c1 show ?thesis
    by (auto simp: cleanup_def Let_def tlog_logs)
qed

lemma cleanup_restore_failed:
  assumes "getAPIServer client t0 = Inr a"
    and "updateAPIServer client t0 (a\<lparr>specTLSSecurityProfile := orig\<rparr>) = None"
    and "err (fst (cleanupReconcileSession client t0 s)) = None"
    and "err (fst (restoreSession client orig
                (t0 + elapsed (fst (cleanupReconcileSession client t0 s))) s)) \<noteq> None"
  shows "last (logs (cleanup client orig t0 s)) =
           ''TLS profile was not properly restored in observed config''"
proof -
  let ?s2 = "tlog ''Waiting for operator to reconcile TLS profile restoration''
               (tlog ''Restoring original TLS profile'' s)"
  obtain r1 s3 where c1: "cleanupReconcileSession client t0 ?s2 = (r1, s3)"
    by (cases "cleanupReconcileSession client t0 ?s2") auto
  have r1: "r1 = fst (cleanupReconcileSession client t0 s)"
    using sessions_verdict_only(1)[of client t0 ?s2 s] c1 by simp
  with assms(3) have e1: "err r1 = None" by simp
  let ?s4 = "tlog ''Verifying TLS profile was restored correctly'' s3"
  obtain r2 s5 where c2: "restoreSession client orig (t0 + elapsed r1) ?s4 = (r2, s5)"
    by (cases "restoreSession client orig (t0 + elapsed r1) ?s4") auto
  have "r2 = fst (restoreSession client orig (t0 + elapsed r1) s)"
    using sessions_verdict_only(2)[of client orig "t0 + elapsed r1" ?s4 s] c2 by simp
  with assms(4) r1 have "err r2 \<noteq> None" by simp
  with assms(1) assms(2) c1 c2 e1 show ?thesis
    by (auto simp: cleanup_def Let_def tlog_logs)
qed

lemma test_failure_is_body_failure:
  assumes "mustNewClientset client = None"
    and "mustEnsureClusterOperatorStatusIsSet client = None"
    and "getAPIServer client 0 = Inr a"
    and "updateAPIServer client 0 (a\<lparr>specTLSSecurityProfile := Some modernProfile\<rparr>) = None"
  shows "failure (testTLSSecurityProfilePropagation client) =
           failure (snd (propagationBody client 0 initialState))"
  using assms
  by (simp add: testTLSSecurityProfilePropagation_def Let_def cleanup_failure
      split: prod.splits)



lemma firstMissing_None_iff: "firstMissing es S = None \<longleftrightarrow> set es \<subseteq> S"
  by (induction es) simp_all

lemma NestedString_found_NestedMap:
  assumes "NestedString obj [a, b] = (v, True, None)"
  shows "\<exists>m. NestedMap obj [a] = (m, True, None)"
proof (cases "map_of obj a")
  case None
  with assms show ?thesis by (simp add: NestedString_def)
next
  case (Some x)
  with assms show ?thesis
    by (cases x) (simp_all add: NestedString_def NestedMap_def)
qed

lemma observedConfigVerified_parsed:
  assumes "getOpenShiftControllerManager client t = Inr cfg"
    and "Contains (ObservedConfigRaw cfg) (quoted ''minTLSVersion'')"
    and "Contains (ObservedConfigRaw cfg) (quoted ''cipherSuites'')"
    and "unmarshal client (ObservedConfigRaw cfg) = Inr obj"
  shows "fst (observedConfigVerified client t s) =
           (NestedString obj [''servingInfo'', ''minTLSVersion''] =
              (''VersionTLS13'', True, None) \<and>
            (\<exists>cs. NestedStringSlice obj [''servingInfo'', ''cipherSuites''] = (cs, True, None) \<and>
                  {''TLS_AES_128_GCM_SHA256'', ''TLS_AES_256_GCM_SHA384'',
                   ''TLS_CHACHA20_POLY1305_SHA256''} \<subseteq> set cs),
            None)"
proof -
  obtain m f1 e1 where nm: "NestedMap obj [''servingInfo''] = (m, f1, e1)"
    by (cases "NestedMap obj [''servingInfo'']") auto
  obtain v f2 e2 where ns: "NestedString obj [''servingInfo'', ''minTLSVersion''] = (v, f2, e2)"
    by (cases "NestedString obj [''servingInfo'', ''minTLSVersion'']") auto
  obtain cs f3 e3 where
    nss: "NestedStringSlice obj [''servingInfo'', ''cipherSuites''] = (cs, f3, e3)"
    by (cases "NestedStringSlice obj [''servingInfo'', ''cipherSuites'']") auto
  have link: "f2 \<and> e2 = None \<longrightarrow> f1 \<and> e1 = None"
    using NestedString_found_NestedMap[of obj "''servingInfo''" "''minTLSVersion''" v] ns nm
    by auto
  have sub: "(firstMissing expectedCiphers (set cs) = None) =
               ({''TLS_AES_128_GCM_SHA256'', ''TLS_AES_256_GCM_SHA384'',
                 ''TLS_CHACHA20_POLY1305_SHA256''} \<subseteq> set cs)"
    unfolding firstMissing_None_iff by (simp add: expectedCiphers_def)
  show ?thesis
  proof (cases "f2 \<and> e2 = None \<and> v = ''VersionTLS13''")
    case False
    with assms nm ns show ?thesis
      by (auto simp: observedConfigVerified_def Let_def)
  next
    case True
    with link have l: "f1" "e1 = None" by simp_all
    show ?thesis
    proof (cases "f3 \<and> e3 = None \<and> cs \<noteq> []")
      case False
      with assms nm ns nss True l show ?thesis
        by (auto simp: observedConfigVerified_def Let_def)
    next
      case c: True
      show ?thesis
      proof (cases "firstMissing expectedCiphers (set cs)")
        case None
        with sub have "{''TLS_AES_128_GCM_SHA256'', ''TLS_AES_256_GCM_SHA384'',
                 ''TLS_CHACHA20_POLY1305_SHA256''} \<subseteq> set cs" by simp
        with assms nm ns nss True l c None show ?thesis
          by (simp add: observedConfigVerified_def Let_def)
      next
        case (Some x)
        with sub have "\<not> {''TLS_AES_128_GCM_SHA256'', ''TLS_AES_256_GCM_SHA384'',
                 ''TLS_CHACHA20_POLY1305_SHA256''} \<subseteq> set cs" by simp
        with assms nm ns nss True l c Some show ?thesis
          by (simp add: observedConfigVerified_def Let_def)
      qed
    qed
  qed
qed

section \<open>The predicates and sessions on the example clusters\<close>

lemma observedConfigVerified_settled:
  "observedConfigVerified settledCluster t s =
     ((True, None),
      tlog ''Validated Modern TLS config'' (tlog ''TLS config successfully observed'' s))"
  by (simp add: observedConfigVerified_def settledCluster_def exampleCluster_def
      modernRaw_def modernObserved_def quoted_def NestedMap_def NestedString_def
      NestedStringSlice_def expectedCiphers_def)




section \<open>The claims\<close>

subsection \<open>C1: fetch errors inside a predicate never end a session\<close>



subsection \<open>C2: a session whose predicate never holds times out\<close>

text \<open>
  C2. Every poll session terminates: \<open>PollUntilContextTimeout\<close> is a total function,
  its loop is accepted with the measure \<open>deadline - t\<close>. For every interval \<open>I > 0\<close> and
  deadline \<open>D > I\<close>, a session whose predicate always returns \<open>(false, nil)\<close> ends not
  converged, with the deadline error, which is the outcome \<open>TimedOut\<close> and no other, not
  before the deadline and less than \<open>D + I\<close> after its start, whether it checks
  immediately or not.
\<close>

theorem C2_always_false_times_out:
  assumes "0 < I" and "I < D" and "\<forall>t s. fst (p t s) = (False, None)"
  shows "converged (fst (PollUntilContextTimeout I D immediate p s)) = False \<and>
         err (fst (PollUntilContextTimeout I D immediate p s)) = Some DeadlineExceeded \<and>
         outcomeOf (fst (PollUntilContextTimeout I D immediate p s)) = TimedOut \<and>
         D \<le> elapsed (fst (PollUntilContextTimeout I D immediate p s)) \<and>
         elapsed (fst (PollUntilContextTimeout I D immediate p s)) < D + I"
  using PollUntilContextTimeout_always_false[OF assms, of immediate s]
  by (simp add: outcomeOf_def)

text \<open>
  The session that waits for the operator to start progressing (5 seconds, 5 minutes), on
  the cluster whose reads all fail.
\<close>

theorem C2_witness:
  "0 < 5 * Second \<and> 5 * Second < 5 * Minute \<and>
   (\<forall>t s. fst (progressingStarted unreachableCluster (0 + t) s) = (False, None)) \<and>
   converged (fst (progressingSession unreachableCluster 0 initialState)) = False \<and>
   err (fst (progressingSession unreachableCluster 0 initialState)) = Some DeadlineExceeded \<and>
   outcomeOf (fst (progressingSession unreachableCluster 0 initialState)) = TimedOut \<and>
   5 * Minute \<le> elapsed (fst (progressingSession unreachableCluster 0 initialState)) \<and>
   elapsed (fst (progressingSession unreachableCluster 0 initialState)) < 5 * Minute + 5 * Second"
  using C2_always_false_times_out
    [of "5 * Second" "5 * Minute" "\<lambda>e. progressingStarted unreachableCluster (0 + e)" True
      initialState]
  by (simp add: progressingSession_def progressingStarted_def unreachableCluster_def
      Second_def Minute_def)

subsection \<open>C3: which timeouts fail the test\<close>




subsection \<open>C4: when the observed-config verification predicate converges\<close>

text \<open>
  C4, as the code has it. The predicate never returns an error, and it converges if and
  only if all of the following hold: the Get of the config succeeds; the raw text of the
  observed config contains the key \<open>minTLSVersion\<close> and the key \<open>cipherSuites\<close>, each
  between double quotes; the unmarshal of the raw text succeeds; and in the parsed
  observed config \<open>servingInfo.minTLSVersion\<close> is found, without error, and is exactly
  \<open>VersionTLS13\<close>, and \<open>servingInfo.cipherSuites\<close> is found, without error, as a list of
  strings that contains each of the three ciphers of the Modern profile. The list may
  hold other ciphers too. The condition on the raw text is part of it: a parsed config
  that reports the version and the ciphers does not converge when its raw text lacks one
  of the two quoted keys.
\<close>

theorem C4_verify_predicate_converges_iff:
  "fst (observedConfigVerified client t s) =
     ((case getOpenShiftControllerManager client t of
         Inl e \<Rightarrow> False
       | Inr cfg \<Rightarrow>
           Contains (ObservedConfigRaw cfg) (quoted ''minTLSVersion'') \<and>
           Contains (ObservedConfigRaw cfg) (quoted ''cipherSuites'') \<and>
           (case unmarshal client (ObservedConfigRaw cfg) of
              Inl e \<Rightarrow> False
            | Inr obj \<Rightarrow>
                NestedString obj [''servingInfo'', ''minTLSVersion''] =
                  (''VersionTLS13'', True, None) \<and>
                (\<exists>cs. NestedStringSlice obj [''servingInfo'', ''cipherSuites''] =
                        (cs, True, None) \<and>
                      {''TLS_AES_128_GCM_SHA256'', ''TLS_AES_256_GCM_SHA384'',
                       ''TLS_CHACHA20_POLY1305_SHA256''} \<subseteq> set cs))),
      None)"
proof (cases "getOpenShiftControllerManager client t")
  case (Inl e)
  then show ?thesis by (simp add: observedConfigVerified_def)
next
  case (Inr cfg)
  show ?thesis
  proof (cases "Contains (ObservedConfigRaw cfg) (quoted ''minTLSVersion'') \<and>
                Contains (ObservedConfigRaw cfg) (quoted ''cipherSuites'')")
    case False
    with Inr show ?thesis by (auto simp: observedConfigVerified_def Let_def)
  next
    case True
    then have k1: "Contains (ObservedConfigRaw cfg) (quoted ''minTLSVersion'')"
      and k2: "Contains (ObservedConfigRaw cfg) (quoted ''cipherSuites'')" by simp_all
    show ?thesis
    proof (cases "unmarshal client (ObservedConfigRaw cfg)")
      case (Inl e)
      with Inr True show ?thesis by (simp add: observedConfigVerified_def Let_def)
    next
      case u: (Inr obj)
      from observedConfigVerified_parsed[OF Inr k1 k2 u, of s] Inr k1 k2 u
      show ?thesis by simp
    qed
  qed
qed

text \<open>
  The cluster whose observed config carries the Modern profile with a fourth cipher suite
  besides the three expected ones: the predicate converges.
\<close>

theorem C4_witness:
  "getOpenShiftControllerManager settledCluster 0 = Inr \<lparr>ObservedConfigRaw = modernRaw\<rparr> \<and>
   Contains modernRaw (quoted ''minTLSVersion'') \<and>
   Contains modernRaw (quoted ''cipherSuites'') \<and>
   unmarshal settledCluster modernRaw = Inr modernObserved \<and>
   NestedString modernObserved [''servingInfo'', ''minTLSVersion''] =
     (''VersionTLS13'', True, None) \<and>
   NestedStringSlice modernObserved [''servingInfo'', ''cipherSuites''] =
     ([''TLS_AES_128_GCM_SHA256'', ''TLS_AES_256_GCM_SHA384'',
       ''TLS_CHACHA20_POLY1305_SHA256'', ''TLS_ECDHE_RSA_WITH_AES_128_GCM_SHA256''],
      True, None) \<and>
   fst (observedConfigVerified settledCluster 0 initialState) = (True, None)"
proof -
  have g: "getOpenShiftControllerManager settledCluster 0 = Inr \<lparr>ObservedConfigRaw = modernRaw\<rparr>"
    by (simp add: settledCluster_def exampleCluster_def)
  have k1: "Contains modernRaw (quoted ''minTLSVersion'')"
    by (simp add: modernRaw_def quoted_def)
  have k2: "Contains modernRaw (quoted ''cipherSuites'')"
    by (simp add: modernRaw_def quoted_def)
  have u: "unmarshal settledCluster modernRaw = Inr modernObserved"
    by (simp add: settledCluster_def exampleCluster_def)
  have n1: "NestedString modernObserved [''servingInfo'', ''minTLSVersion''] =
              (''VersionTLS13'', True, None)"
    by (simp add: modernObserved_def NestedString_def)
  have n2: "NestedStringSlice modernObserved [''servingInfo'', ''cipherSuites''] =
     ([''TLS_AES_128_GCM_SHA256'', ''TLS_AES_256_GCM_SHA384'',
       ''TLS_CHACHA20_POLY1305_SHA256'', ''TLS_ECDHE_RSA_WITH_AES_128_GCM_SHA256''],
      True, None)"
    by (simp add: modernObserved_def NestedStringSlice_def)
  from C4_verify_predicate_converges_iff[of settledCluster 0 initialState]
  have "fst (observedConfigVerified settledCluster 0 initialState) = (True, None)"
    by (simp add: g k1 k2 u n1 n2)
  with g k1 k2 u n1 n2 show ?thesis by simp
qed

text \<open>
  Against the claim as stated: on the cluster whose raw text writes the key
  \<open>minTLSVersion\<close> with an escape, the parsed observed config reports \<open>VersionTLS13\<close>
  and all three ciphers, and the predicate does not converge, because the raw text does
  not contain the quoted key.
\<close>

theorem C4_counterexample:
  "unmarshal escapedCluster escapedRaw = Inr modernObserved \<and>
   NestedString modernObserved [''servingInfo'', ''minTLSVersion''] =
     (''VersionTLS13'', True, None) \<and>
   NestedStringSlice modernObserved [''servingInfo'', ''cipherSuites''] =
     ([''TLS_AES_128_GCM_SHA256'', ''TLS_AES_256_GCM_SHA384'',
       ''TLS_CHACHA20_POLY1305_SHA256'', ''TLS_ECDHE_RSA_WITH_AES_128_GCM_SHA256''],
      True, None) \<and>
   \<not> Contains escapedRaw (quoted ''minTLSVersion'') \<and>
   fst (observedConfigVerified escapedCluster 0 initialState) = (False, None)"
proof -
  have k: "\<not> Contains escapedRaw (quoted ''minTLSVersion'')"
    by (simp add: escapedRaw_def quoted_def)
  have g: "getOpenShiftControllerManager escapedCluster 0 = Inr \<lparr>ObservedConfigRaw = escapedRaw\<rparr>"
    "unmarshal escapedCluster escapedRaw = Inr modernObserved"
    by (simp_all add: escapedCluster_def exampleCluster_def)
  have v: "fst (observedConfigVerified escapedCluster 0 initialState) = (False, None)"
    using g k by (simp add: observedConfigVerified_def Let_def)
  have n1: "NestedString modernObserved [''servingInfo'', ''minTLSVersion''] =
              (''VersionTLS13'', True, None)"
    by (simp add: modernObserved_def NestedString_def)
  have n2: "NestedStringSlice modernObserved [''servingInfo'', ''cipherSuites''] =
     ([''TLS_AES_128_GCM_SHA256'', ''TLS_AES_256_GCM_SHA384'',
       ''TLS_CHACHA20_POLY1305_SHA256'', ''TLS_ECDHE_RSA_WITH_AES_128_GCM_SHA256''],
      True, None)"
    by (simp add: modernObserved_def NestedStringSlice_def)
  from g k v n1 n2 show ?thesis by simp
qed

subsection \<open>C5: the cleanup never fails the test\<close>

text \<open>
  C5. The cleanup leaves the failure of the test exactly as it found it, whatever the
  cluster answers. Each error on its way is logged and ends it: a failed Get of the
  APIServer and a failed Update log their line after the opening line and nothing more;
  when the reconciliation session after the restoration ends with an error (a timeout),
  or when that session converges and the restoration-verification session ends with an
  error, the line that reports it is the last line of the log. So a test whose setup
  succeeds fails exactly if its body failed before the cleanup ran.
\<close>

theorem C5_cleanup_never_fails_test:
  "failure (cleanup client orig t0 s) = failure s \<and>
   (isl (getAPIServer client t0) \<longrightarrow>
      logs (cleanup client orig t0 s) =
        logs s @ [''Restoring original TLS profile'', ''failed to get APIServer for cleanup'']) \<and>
   (getAPIServer client t0 = Inr a \<and>
    updateAPIServer client t0 (a\<lparr>specTLSSecurityProfile := orig\<rparr>) \<noteq> None \<longrightarrow>
      logs (cleanup client orig t0 s) =
        logs s @ [''Restoring original TLS profile'',
                  ''failed to restore original TLS profile'']) \<and>
   (getAPIServer client t0 = Inr a \<and>
    updateAPIServer client t0 (a\<lparr>specTLSSecurityProfile := orig\<rparr>) = None \<and>
    err (fst (cleanupReconcileSession client t0 s)) \<noteq> None \<longrightarrow>
      last (logs (cleanup client orig t0 s)) =
        ''operator did not complete reconciliation after restoration'') \<and>
   (getAPIServer client t0 = Inr a \<and>
    updateAPIServer client t0 (a\<lparr>specTLSSecurityProfile := orig\<rparr>) = None \<and>
    err (fst (cleanupReconcileSession client t0 s)) = None \<and>
    err (fst (restoreSession client orig
           (t0 + elapsed (fst (cleanupReconcileSession client t0 s))) s)) \<noteq> None \<longrightarrow>
      last (logs (cleanup client orig t0 s)) =
        ''TLS profile was not properly restored in observed config'') \<and>
   (mustNewClientset client = None \<and> mustEnsureClusterOperatorStatusIsSet client = None \<and>
    getAPIServer client 0 = Inr b \<and>
    updateAPIServer client 0 (b\<lparr>specTLSSecurityProfile := Some modernProfile\<rparr>) = None \<longrightarrow>
      failure (testTLSSecurityProfilePropagation client) =
        failure (snd (propagationBody client 0 initialState)))"
  using cleanup_failure[of client orig t0 s]
    cleanup_get_failed[of client t0 orig s]
    cleanup_update_failed[of client t0 a orig s]
    cleanup_reconcile_failed[of client t0 a orig s]
    cleanup_restore_failed[of client t0 a orig s]
    test_failure_is_body_failure[of client b]
  by blast

text \<open>
  The cleanup on the cluster whose reads of the clusteroperator fail: the reconciliation
  session after the restoration times out, the cleanup logs it and returns, and a test
  that had not failed has not failed.
\<close>

theorem C5_witness:
  "getAPIServer unreachableCluster 0 = Inr \<lparr>specTLSSecurityProfile = None\<rparr> \<and>
   updateAPIServer unreachableCluster 0
     (\<lparr>specTLSSecurityProfile = None\<rparr>\<lparr>specTLSSecurityProfile := None\<rparr>) = None \<and>
   err (fst (cleanupReconcileSession unreachableCluster 0 initialState)) =
     Some DeadlineExceeded \<and>
   failure (cleanup unreachableCluster None 0 initialState) = None \<and>
   last (logs (cleanup unreachableCluster None 0 initialState)) =
     ''operator did not complete reconciliation after restoration''"
proof -
  have g: "getAPIServer unreachableCluster 0 = Inr \<lparr>specTLSSecurityProfile = None\<rparr>"
    "updateAPIServer unreachableCluster 0
       (\<lparr>specTLSSecurityProfile = None\<rparr>\<lparr>specTLSSecurityProfile := None\<rparr>) = None"
    by (simp_all add: unreachableCluster_def)
  have "\<forall>e. isl (getClusterOperator unreachableCluster (0 + e))"
    by (simp add: unreachableCluster_def)
  from operator_sessions_time_out(1)[OF this, of initialState]
  have e: "err (fst (cleanupReconcileSession unreachableCluster 0 initialState)) =
             Some DeadlineExceeded"
    by simp
  from C5_cleanup_never_fails_test
    [where client = unreachableCluster and orig = None and ?t0.0 = 0 and s = initialState
       and a = "\<lparr>specTLSSecurityProfile = None\<rparr>"] g e
  show ?thesis by (simp add: initialState_def)
qed

subsection \<open>C6: when the restoration-verification predicate converges\<close>

text \<open>
  C6, as the code has it. Let the Get of the config and the unmarshal of the observed
  config succeed, and let the accessor return the value \<open>v\<close>, the flag \<open>found\<close> and the
  error \<open>e\<close> for \<open>servingInfo.minTLSVersion\<close>. The predicate never returns an error, and
  it converges exactly when \<open>e\<close> is nil and
  \<^item> with a nil saved original profile: the version is found and is \<open>VersionTLS12\<close>, or it
    is not found, or it is the empty string;
  \<^item> with a non-nil saved original profile: the version is found and is not
    \<open>VersionTLS13\<close>.

  So with a nil original a version that is neither \<open>VersionTLS12\<close> nor empty does not
  converge although it differs from \<open>VersionTLS13\<close>, and with a non-nil original an
  absent version does not converge.
\<close>

theorem C6_restore_predicate_converges_iff:
  assumes "getOpenShiftControllerManager client t = Inr cfg"
    and "unmarshal client (ObservedConfigRaw cfg) = Inr obj"
    and "NestedString obj [''servingInfo'', ''minTLSVersion''] = (v, found, e)"
  shows "fst (restoreVerified client orig t s) =
           (e = None \<and>
            (if orig = None
             then (found \<and> v = ''VersionTLS12'') \<or> \<not> found \<or> v = []
             else found \<and> v \<noteq> ''VersionTLS13''),
            None)"
  using assms by (auto simp: restoreVerified_def)

text \<open>
  With a nil original and the observed version \<open>VersionTLS12\<close> the predicate converges;
  so it does with no version in the serving section.
\<close>

theorem C6_witness:
  "getOpenShiftControllerManager (versionCluster ''VersionTLS12'') 0 =
     Inr \<lparr>ObservedConfigRaw = versionRaw ''VersionTLS12''\<rparr> \<and>
   unmarshal (versionCluster ''VersionTLS12'') (versionRaw ''VersionTLS12'') =
     Inr (versionObserved ''VersionTLS12'') \<and>
   NestedString (versionObserved ''VersionTLS12'') [''servingInfo'', ''minTLSVersion''] =
     (''VersionTLS12'', True, None) \<and>
   fst (restoreVerified (versionCluster ''VersionTLS12'') None 0 initialState) = (True, None)"
proof -
  have g: "getOpenShiftControllerManager (versionCluster ''VersionTLS12'') 0 =
             Inr \<lparr>ObservedConfigRaw = versionRaw ''VersionTLS12''\<rparr>"
    "unmarshal (versionCluster ''VersionTLS12'')
       (ObservedConfigRaw \<lparr>ObservedConfigRaw = versionRaw ''VersionTLS12''\<rparr>) =
     Inr (versionObserved ''VersionTLS12'')"
    by (simp_all add: versionCluster_def exampleCluster_def)
  have n: "NestedString (versionObserved ''VersionTLS12'') [''servingInfo'', ''minTLSVersion''] =
             (''VersionTLS12'', True, None)"
    by (simp add: versionObserved_def NestedString_def)
  from C6_restore_predicate_converges_iff[OF g n, of None initialState] g n
  show ?thesis by simp
qed

text \<open>
  Against the claim as stated: with a nil original the observed version \<open>VersionTLS11\<close>,
  different from \<open>VersionTLS13\<close>, does not converge; with a non-nil original a serving
  section without a version does not converge.
\<close>

theorem C6_counterexample:
  "NestedString (versionObserved ''VersionTLS11'') [''servingInfo'', ''minTLSVersion''] =
     (''VersionTLS11'', True, None) \<and>
   ''VersionTLS11'' \<noteq> ''VersionTLS13'' \<and>
   fst (restoreVerified (versionCluster ''VersionTLS11'') None 0 initialState) = (False, None) \<and>
   NestedString noVersionObserved [''servingInfo'', ''minTLSVersion''] = ([], False, None) \<and>
   fst (restoreVerified noVersionCluster (Some customTLS12) 0 initialState) = (False, None)"
  by (simp add: restoreVerified_def versionCluster_def noVersionCluster_def exampleCluster_def
      versionObserved_def noVersionObserved_def NestedString_def customTLS12_def)

subsection \<open>C7: a degraded operator keeps the reconciliation session polling\<close>

text \<open>
  C7. Whenever the clusteroperator that a check reads has a Degraded condition with status
  True, the reconciliation-complete predicate returns \<open>(false, nil)\<close>, whatever the other
  conditions are, Available True and Progressing False included. So the session is not
  ended by degraded observations: if the first \<open>k\<close> checks all read a degraded operator,
  the session is still running \<open>k\<close> intervals after its start (as long as that is within
  the deadline), and if every check reads a degraded operator the session runs to its
  deadline of 15 minutes, which its 91st tick finds exceeded after 90 checks.
\<close>

theorem C7_degraded_never_ends_session:
  "(getClusterOperator client t = Inr co \<and> c \<in> set (Conditions co) \<and>
    Type c = OperatorDegraded \<and> Status c = ConditionTrue \<longrightarrow>
      fst (reconciliationComplete client t s) = (False, None)) \<and>
   ((\<forall>j<k. \<exists>co c. getClusterOperator client (t0 + j * (10 * Second)) = Inr co \<and>
        c \<in> set (Conditions co) \<and> Type c = OperatorDegraded \<and> Status c = ConditionTrue) \<and>
    k * (10 * Second) \<le> 15 * Minute \<longrightarrow>
      k * (10 * Second) \<le> elapsed (fst (reconcileSession client t0 s))) \<and>
   ((\<forall>e. \<exists>co c. getClusterOperator client (t0 + e) = Inr co \<and>
        c \<in> set (Conditions co) \<and> Type c = OperatorDegraded \<and> Status c = ConditionTrue) \<longrightarrow>
      fst (reconcileSession client t0 s) =
        \<lparr>converged = False, err = Some DeadlineExceeded, elapsed = 15 * Minute,
         checks = 90\<rparr>)"
proof (intro conjI impI)
  assume "getClusterOperator client t = Inr co \<and> c \<in> set (Conditions co) \<and>
    Type c = OperatorDegraded \<and> Status c = ConditionTrue"
  then show "fst (reconciliationComplete client t s) = (False, None)"
    using reconciliationComplete_degraded[of client t co c s] by simp
next
  assume "(\<forall>j<k. \<exists>co c. getClusterOperator client (t0 + j * (10 * Second)) = Inr co \<and>
        c \<in> set (Conditions co) \<and> Type c = OperatorDegraded \<and> Status c = ConditionTrue) \<and>
    k * (10 * Second) \<le> 15 * Minute"
  then show "k * (10 * Second) \<le> elapsed (fst (reconcileSession client t0 s))"
    using reconcileSession_degraded_steps[of k client t0 s] by blast
next
  assume "\<forall>e. \<exists>co c. getClusterOperator client (t0 + e) = Inr co \<and>
        c \<in> set (Conditions co) \<and> Type c = OperatorDegraded \<and> Status c = ConditionTrue"
  then show "fst (reconcileSession client t0 s) =
        \<lparr>converged = False, err = Some DeadlineExceeded, elapsed = 15 * Minute,
         checks = 90\<rparr>"
    by (rule reconcileSession_always_degraded)
qed

text \<open>
  The cluster whose operator is available, not progressing and degraded for good: every
  check says no, and the session ends at its deadline, 900 seconds after its start.
\<close>

theorem C7_witness:
  "getClusterOperator degradedCluster 0 =
     Inr \<lparr>Conditions = [availableTrue, progressingFalse, degradedTrue]\<rparr> \<and>
   Type degradedTrue = OperatorDegraded \<and> Status degradedTrue = ConditionTrue \<and>
   fst (reconciliationComplete degradedCluster 0 initialState) = (False, None) \<and>
   3 * (10 * Second) \<le> elapsed (fst (reconcileSession degradedCluster 0 initialState)) \<and>
   fst (reconcileSession degradedCluster 0 initialState) =
     \<lparr>converged = False, err = Some DeadlineExceeded, elapsed = 900, checks = 90\<rparr>"
proof -
  have g: "getClusterOperator degradedCluster e =
             Inr \<lparr>Conditions = [availableTrue, progressingFalse, degradedTrue]\<rparr>" for e
    by (simp add: degradedCluster_def exampleCluster_def)
  have d: "Type degradedTrue = OperatorDegraded \<and> Status degradedTrue = ConditionTrue"
    by (simp add: degradedTrue_def)
  have ex: "\<exists>co c. getClusterOperator degradedCluster e = Inr co \<and>
        c \<in> set (Conditions co) \<and> Type c = OperatorDegraded \<and> Status c = ConditionTrue" for e
    using g d by auto
  from C7_degraded_never_ends_session
    [where client = degradedCluster and t = 0 and t0 = 0 and s = initialState and k = 3
       and co = "\<lparr>Conditions = [availableTrue, progressingFalse, degradedTrue]\<rparr>"
       and c = degradedTrue] g d ex
  show ?thesis by (simp add: Second_def Minute_def)
qed

subsection \<open>C8: a predicate that becomes true before the deadline\<close>

text \<open>
  C8. Ticks are counted from the start of the session, tick \<open>j\<close> at time \<open>j * I\<close>; a
  session that checks immediately makes its first check at tick 0, one that does not at
  tick 1. The predicate is any function of the time and of the state the session hands
  it, and its verdicts are taken along the run of the session: at each tick the predicate
  is given the state that the checks before it have left. If it returns \<open>(false, nil)\<close>
  at every tick before the \<open>k\<close>-th at which the session checks and \<open>(true, nil)\<close> at the
  \<open>k\<close>-th, and \<open>k * I < D\<close>, then the session ends converged with a nil error, at tick
  \<open>k\<close> (so before tick \<open>k + 1\<close>), after at most \<open>k + 1\<close> checks, in the state that the
  successful check leaves.
\<close>

theorem C8_converges_when_predicate_becomes_true:
  assumes I: "0 < I" and lt: "k * I < D"
    and first: "immediate \<or> 0 < k"
    and before: "\<forall>j<k. (immediate \<or> 0 < j) \<longrightarrow>
                   fst (p (j * I)
                          (stateAfter p I (if immediate then 0 else I)
                             (if immediate then j else j - 1) s)) = (False, None)"
    and now: "fst (p (k * I)
                     (stateAfter p I (if immediate then 0 else I)
                        (if immediate then k else k - 1) s)) = (True, None)"
  shows "converged (fst (PollUntilContextTimeout I D immediate p s)) = True \<and>
         err (fst (PollUntilContextTimeout I D immediate p s)) = None \<and>
         outcomeOf (fst (PollUntilContextTimeout I D immediate p s)) = Converged \<and>
         elapsed (fst (PollUntilContextTimeout I D immediate p s)) = k * I \<and>
         checks (fst (PollUntilContextTimeout I D immediate p s)) =
           (if immediate then k + 1 else k) \<and>
         snd (PollUntilContextTimeout I D immediate p s) =
           snd (p (k * I)
                  (stateAfter p I (if immediate then 0 else I)
                     (if immediate then k else k - 1) s))"
proof (cases immediate)
  case True
  have b: "\<forall>j<k. fst (p (0 + j * I) (stateAfter p I 0 j s)) = (False, None)"
    using before True by simp
  have n: "fst (p (0 + k * I) (stateAfter p I 0 k s)) = (True, None)" using now True by simp
  have l: "0 + k * I < D" using lt by simp
  have D: "0 < D" using lt by simp
  from pollLoop_converges_at_run[OF I b n l, of 0] I D True
  show ?thesis by (simp add: PollUntilContextTimeout_def outcomeOf_def)
next
  case False
  with first obtain m where k: "k = Suc m" by (cases k) auto
  have b: "\<forall>j<m. fst (p (I + j * I) (stateAfter p I I j s)) = (False, None)"
  proof (intro allI impI)
    fix j assume "j < m"
    then have "Suc j < k" "0 < Suc j" using k by simp_all
    with before False
    have "fst (p (Suc j * I) (stateAfter p I I (Suc j - 1) s)) = (False, None)"
      by (metis (full_types))
    then show "fst (p (I + j * I) (stateAfter p I I j s)) = (False, None)" by simp
  qed
  have n: "fst (p (I + m * I) (stateAfter p I I m s)) = (True, None)"
    using now k False by simp
  have l: "I + m * I < D" using lt k by simp
  have D: "0 < D" using lt k I by simp
  from pollLoop_converges_at_run[OF I b n l, of 0] I D False k
  show ?thesis by (simp add: PollUntilContextTimeout_def outcomeOf_def)
qed

text \<open>
  Two sessions with interval 5 and a deadline of 5 minutes. The first has the predicate
  that counts its calls and holds from the third on: the checks at ticks 0 and 1 fail, the
  check at tick 2 succeeds and leaves the count 3. The second waits for the operator to
  start progressing, on the cluster that starts progressing at the tenth second: again
  the third check, at tick 2, succeeds.
\<close>

theorem C8_witness:
  "0 < 5 * Second \<and> 2 * (5 * Second) < 5 * Minute \<and>
   fst (thirdCall 0 0) = (False, None) \<and>
   fst (thirdCall (5 * Second) 1) = (False, None) \<and>
   fst (thirdCall (2 * (5 * Second)) 2) = (True, None) \<and>
   PollUntilContextTimeout (5 * Second) (5 * Minute) True thirdCall 0 =
     (\<lparr>converged = True, err = None, elapsed = 10, checks = 3\<rparr>, 3) \<and>
   (\<forall>s. fst (progressingStarted startingCluster 0 s) = (False, None)) \<and>
   (\<forall>s. fst (progressingStarted startingCluster (5 * Second) s) = (False, None)) \<and>
   (\<forall>s. fst (progressingStarted startingCluster (2 * (5 * Second)) s) = (True, None)) \<and>
   fst (progressingSession startingCluster 0 initialState) =
     \<lparr>converged = True, err = None, elapsed = 10, checks = 3\<rparr>"
proof -
  have c: "\<forall>j<2. (True \<or> 0 < j) \<longrightarrow>
             fst (thirdCall (j * (5 * Second))
                    (stateAfter thirdCall (5 * Second) (if True then 0 else 5 * Second)
                       (if True then j else j - 1) 0)) = (False, None)"
  proof (intro allI impI)
    fix j :: nat assume "j < 2"
    then have "j = 0 \<or> j = 1" by auto
    then show "fst (thirdCall (j * (5 * Second))
                    (stateAfter thirdCall (5 * Second) (if True then 0 else 5 * Second)
                       (if True then j else j - 1) 0)) = (False, None)"
      by (auto simp: thirdCall_def)
  qed
  have c2: "stateAfter thirdCall (5 * Second) 0 2 0 = 2"
    by (simp add: thirdCall_def numeral_2_eq_2)
  from C8_converges_when_predicate_becomes_true
    [of "5 * Second" 2 "5 * Minute" True thirdCall 0] c c2
  have first: "PollUntilContextTimeout (5 * Second) (5 * Minute) True thirdCall 0 =
     (\<lparr>converged = True, err = None, elapsed = 10, checks = 3\<rparr>, 3)"
    by (simp add: Second_def Minute_def thirdCall_def session.equality prod_eq_iff)
  have f: "fst (progressingStarted startingCluster t s) = (False, None)" if "t < 10" for t s
    using that
    by (simp add: progressingStarted_def startingCluster_def exampleCluster_def
        availableTrue_def progressingFalse_def OperatorAvailable_def OperatorProgressing_def
        ConditionTrue_def ConditionFalse_def)
  have n: "fst (progressingStarted startingCluster (0 + 2 * (5 * Second)) s) = (True, None)" for s
    by (simp add: progressingStarted_def startingCluster_def exampleCluster_def Second_def
        availableTrue_def progressingTrue_def OperatorAvailable_def OperatorProgressing_def
        ConditionTrue_def ConditionFalse_def)
  have b: "\<forall>j<2. (True \<or> 0 < j) \<longrightarrow>
             fst (progressingStarted startingCluster (0 + j * (5 * Second)) s) = (False, None)"
    for s
  proof (intro allI impI)
    fix j :: nat assume "j < 2"
    then have "0 + j * (5 * Second) < 10" by (auto simp: Second_def)
    then show "fst (progressingStarted startingCluster (0 + j * (5 * Second)) s) = (False, None)"
      by (rule f)
  qed
  from C8_converges_when_predicate_becomes_true
    [of "5 * Second" 2 "5 * Minute" True
      "\<lambda>e. progressingStarted startingCluster (0 + e)" initialState] b n
  have second: "fst (progressingSession startingCluster 0 initialState) =
     \<lparr>converged = True, err = None, elapsed = 10, checks = 3\<rparr>"
    by (simp add: progressingSession_def Second_def Minute_def session.equality)
  have f0: "fst (progressingStarted startingCluster 0 s) = (False, None)"
    "fst (progressingStarted startingCluster (5 * Second) s) = (False, None)" for s
    by (simp_all add: f Second_def)
  from first second f0 n show ?thesis
    by (simp add: thirdCall_def Second_def Minute_def)
qed

subsection \<open>C9: a predicate that holds at the first check\<close>

text \<open>
  C9. A session that checks immediately and whose predicate returns \<open>(true, nil)\<close> at its
  first check ends converged at once: no time has elapsed and the predicate has been
  called once. The state it leaves is the state the single call of the predicate leaves,
  so the session adds nothing to what the predicate does. Run again from the state the
  first run left, the same session gives the same result in the same way.
\<close>

theorem C9_immediate_convergence_twice:
  assumes "0 < I" and "0 < D" and "\<forall>s. fst (p 0 s) = (True, None)"
  shows "PollUntilContextTimeout I D True p s =
           (\<lparr>converged = True, err = None, elapsed = 0, checks = 1\<rparr>, snd (p 0 s)) \<and>
         PollUntilContextTimeout I D True p (snd (PollUntilContextTimeout I D True p s)) =
           (\<lparr>converged = True, err = None, elapsed = 0, checks = 1\<rparr>,
            snd (p 0 (snd (p 0 s))))"
  using assms PollUntilContextTimeout_true_now[of I D p s]
    PollUntilContextTimeout_true_now[of I D p "snd (p 0 s)"]
  by simp

text \<open>
  The session that verifies the observed config (5 seconds, 2 minutes), run twice on the
  cluster whose observed config already carries the Modern profile: each run logs the two
  lines of one successful check and nothing else.
\<close>

theorem C9_witness:
  "0 < 5 * Second \<and> 0 < 2 * Minute \<and>
   (\<forall>s. fst (observedConfigVerified settledCluster (0 + 0) s) = (True, None)) \<and>
   verifySession settledCluster 0 initialState =
     (\<lparr>converged = True, err = None, elapsed = 0, checks = 1\<rparr>,
      \<lparr>logs = [''TLS config successfully observed'', ''Validated Modern TLS config''],
       failure = None\<rparr>) \<and>
   verifySession settledCluster 0 (snd (verifySession settledCluster 0 initialState)) =
     (\<lparr>converged = True, err = None, elapsed = 0, checks = 1\<rparr>,
      \<lparr>logs = [''TLS config successfully observed'', ''Validated Modern TLS config'',
               ''TLS config successfully observed'', ''Validated Modern TLS config''],
       failure = None\<rparr>)"
proof -
  have v: "observedConfigVerified settledCluster t s =
             ((True, None),
              tlog ''Validated Modern TLS config'' (tlog ''TLS config successfully observed'' s))"
    for t s
    by (rule observedConfigVerified_settled)
  from C9_immediate_convergence_twice
    [of "5 * Second" "2 * Minute" "\<lambda>e. observedConfigVerified settledCluster (0 + e)"
      initialState]
  have "verifySession settledCluster 0 initialState =
          (\<lparr>converged = True, err = None, elapsed = 0, checks = 1\<rparr>,
           snd (observedConfigVerified settledCluster 0 initialState)) \<and>
        verifySession settledCluster 0 (snd (verifySession settledCluster 0 initialState)) =
          (\<lparr>converged = True, err = None, elapsed = 0, checks = 1\<rparr>,
           snd (observedConfigVerified settledCluster 0
                  (snd (observedConfigVerified settledCluster 0 initialState))))"
    by (clarsimp simp: verifySession_def Second_def Minute_def v)
  then show ?thesis
    by (clarsimp simp: Second_def Minute_def v tlog_def initialState_def)
qed

subsection \<open>C10: a saved original profile is never compared with the observed version\<close>

text \<open>
  C10. With a non-nil saved original profile the verdict of the restoration-verification
  predicate is the same for every original profile: the profile is only tested for nil.
  Whenever the reads succeed and the observed \<open>minTLSVersion\<close> is found and is not
  \<open>VersionTLS13\<close>, the predicate converges, whatever the original profile's own minimum
  version is.
\<close>

theorem C10_original_profile_not_compared:
  "fst (restoreVerified client (Some p) t s) = fst (restoreVerified client (Some q) t s) \<and>
   (getOpenShiftControllerManager client t = Inr cfg \<and>
    unmarshal client (ObservedConfigRaw cfg) = Inr obj \<and>
    NestedString obj [''servingInfo'', ''minTLSVersion''] = (v, True, None) \<and>
    v \<noteq> ''VersionTLS13'' \<longrightarrow>
      fst (restoreVerified client (Some p) t s) = (True, None))"
  by (auto simp: restoreVerified_def split: sum.splits prod.splits)

text \<open>
  The saved original is a Custom profile with minimum version \<open>VersionTLS12\<close>; the
  observed config reports \<open>VersionTLS10\<close>, which is not the original's version, and the
  predicate converges.
\<close>

theorem C10_witness:
  "Custom customTLS12 =
     Some \<lparr>Ciphers = [''ECDHE-RSA-AES128-GCM-SHA256''], MinTLSVersion = ''VersionTLS12''\<rparr> \<and>
   NestedString (versionObserved ''VersionTLS10'') [''servingInfo'', ''minTLSVersion''] =
     (''VersionTLS10'', True, None) \<and>
   ''VersionTLS10'' \<noteq> ''VersionTLS12'' \<and>
   fst (restoreVerified (versionCluster ''VersionTLS10'') (Some customTLS12) 0 initialState) =
     (True, None)"
proof -
  have g: "getOpenShiftControllerManager (versionCluster ''VersionTLS10'') 0 =
             Inr \<lparr>ObservedConfigRaw = versionRaw ''VersionTLS10''\<rparr>"
    "unmarshal (versionCluster ''VersionTLS10'')
       (ObservedConfigRaw \<lparr>ObservedConfigRaw = versionRaw ''VersionTLS10''\<rparr>) =
     Inr (versionObserved ''VersionTLS10'')"
    by (simp_all add: versionCluster_def exampleCluster_def)
  have n: "NestedString (versionObserved ''VersionTLS10'') [''servingInfo'', ''minTLSVersion''] =
             (''VersionTLS10'', True, None)"
    by (simp add: versionObserved_def NestedString_def)
  from C10_original_profile_not_compared
    [where client = "versionCluster ''VersionTLS10''" and p = customTLS12 and t = 0
       and s = initialState and cfg = "\<lparr>ObservedConfigRaw = versionRaw ''VersionTLS10''\<rparr>"
       and obj = "versionObserved ''VersionTLS10''" and v = "''VersionTLS10''"] g n
  show ?thesis by (simp add: customTLS12_def)
qed

end
